theory Spec2Isabelle
  imports Main "HOL-Library.Word" "HOL-Library.Char_ord"
begin

unbundle bit_operations_syntax

section \<open>The host, buffers, values and errors\<close>

text \<open>
  \<^verbatim>\<open>index.js\<close> reads two facts about the host when the module is loaded:
  \<^verbatim>\<open>IS_LITTLE_ENDIAN\<close> and \<^verbatim>\<open>IS_64bit\<close>. Every definition below takes them as a
  record, so that a theorem holds on every host.
\<close>

record platform =
  IS_LITTLE_ENDIAN :: bool
  IS_64bit :: bool

text \<open>
  A Node \<^verbatim>\<open>Buffer\<close> is a byte array of fixed length. The values that travel through
  \<^verbatim>\<open>pack\<close> and \<^verbatim>\<open>unpack\<close> are JavaScript values:
  \<^item> \<open>Undefined\<close>: what \<^verbatim>\<open>data[i]\<close> is beyond the end of an array or a buffer;
  \<^item> \<open>Number n\<close>: an integral number;
  \<^item> \<open>Boolean b\<close>;
  \<^item> \<open>Text bs\<close>: a string, represented by its UTF-8 encoding \<open>bs\<close>, so that
    \<^verbatim>\<open>new Buffer(s, 'utf8')\<close> and \<^verbatim>\<open>buf.toString('utf8')\<close> are the identity on the bytes
    (exact for well-formed UTF-8; the replacement of malformed sequences by U+FFFD when
    decoding is not modelled);
  \<^item> \<open>LongV low high unsigned\<close>: an object of the \<^verbatim>\<open>long\<close> package, two 32-bit halves
    and the signedness flag;
  \<^item> \<open>Float w\<close> and \<open>Double w\<close>: a number read by \<^verbatim>\<open>readFloat*\<close> / \<^verbatim>\<open>readDouble*\<close>,
    represented by its IEEE-754 bit pattern.
\<close>

type_synonym byte = "8 word"
type_synonym buffer = "byte list"

datatype jsval =
    Undefined
  | Number int
  | Boolean bool
  | Text "byte list"
  | LongV "32 word" "32 word" bool
  | Float "32 word"
  | Double "64 word"

text \<open>
  The two errors \<^verbatim>\<open>index.js\<close> throws itself are \<open>TruncatedBuffer\<close>
  (\<^verbatim>\<open>'Reached end of buffer, can't unpack anymore data.'\<close>) and \<open>InsufficientValues\<close>
  (\<^verbatim>\<open>'Reached end of data, no more elements to pack.'\<close>). \<open>RangeError\<close> and
  \<open>TypeError\<close> are the errors of Node's \<^verbatim>\<open>Buffer\<close> and of the language. \<open>Uncoerced\<close>
  marks the border of the model: a value whose conversion by JavaScript (a string or a
  fraction given to an integer field, an integer given to a float field) is not
  modelled.
\<close>

datatype error = TruncatedBuffer | InsufficientValues | RangeError | TypeError | Uncoerced

type_synonym unpacker = "buffer \<Rightarrow> nat \<Rightarrow> nat \<Rightarrow> error + jsval"
type_synonym packer = "jsval \<Rightarrow> buffer \<Rightarrow> nat \<Rightarrow> nat \<Rightarrow> error + buffer"

text \<open>An entry of a table: \<^verbatim>\<open>[size, alignment, unpack function, pack function]\<close>.\<close>

type_synonym op = "nat \<times> nat \<times> unpacker option \<times> packer option"

section \<open>Node's Buffer primitives\<close>

text \<open>
  The accessors follow Node's \<^verbatim>\<open>Buffer\<close> since version 10, where the \<^verbatim>\<open>noAssert\<close>
  argument is ignored: a typed read or write whose span is not inside the buffer, and a
  write of a number outside the range of the field, raise \<open>RangeError\<close>. An indexed
  access \<^verbatim>\<open>buf[i]\<close> never raises: a read beyond the end is \<^verbatim>\<open>undefined\<close>, a write
  beyond the end is dropped, and the stored number is reduced modulo 256.
\<close>

fun bytes_le :: "nat \<Rightarrow> int \<Rightarrow> byte list" where
  "bytes_le 0 v = []"
| "bytes_le (Suc k) v = word_of_int v # bytes_le k (v div 256)"

fun uint_le :: "byte list \<Rightarrow> int" where
  "uint_le [] = 0"
| "uint_le (b # bs) = uint b + 256 * uint_le bs"

definition bytes_of :: "bool \<Rightarrow> nat \<Rightarrow> int \<Rightarrow> byte list" where
  "bytes_of le k v = (if le then bytes_le k v else rev (bytes_le k v))"

definition uint_of :: "bool \<Rightarrow> byte list \<Rightarrow> int" where
  "uint_of le bs = (if le then uint_le bs else uint_le (rev bs))"

definition to_signed :: "nat \<Rightarrow> int \<Rightarrow> int" where
  "to_signed k n = (if 2 ^ (8 * k - 1) \<le> n then n - 2 ^ (8 * k) else n)"

definition span :: "buffer \<Rightarrow> nat \<Rightarrow> nat \<Rightarrow> error + byte list" where
  "span data pos k =
     (if pos + k \<le> length data then Inr (take k (drop pos data)) else Inl RangeError)"

definition index :: "buffer \<Rightarrow> nat \<Rightarrow> byte option" where
  "index data pos = (if pos < length data then Some (data ! pos) else None)"

definition read_uint :: "bool \<Rightarrow> nat \<Rightarrow> buffer \<Rightarrow> nat \<Rightarrow> error + int" where
  "read_uint le k data pos =
     (case span data pos k of Inl e \<Rightarrow> Inl e | Inr bs \<Rightarrow> Inr (uint_of le bs))"

definition read_int :: "bool \<Rightarrow> nat \<Rightarrow> buffer \<Rightarrow> nat \<Rightarrow> error + int" where
  "read_int le k data pos =
     (case span data pos k of Inl e \<Rightarrow> Inl e | Inr bs \<Rightarrow> Inr (to_signed k (uint_of le bs)))"

fun blit :: "byte list \<Rightarrow> buffer \<Rightarrow> nat \<Rightarrow> buffer" where
  "blit [] buf pos = buf"
| "blit (b # bs) buf pos = blit bs (buf[pos := b]) (Suc pos)"

text \<open>
  \<^verbatim>\<open>+value\<close> as the integer sinks of this file see it: \<^verbatim>\<open>undefined\<close> becomes
  \<^verbatim>\<open>NaN\<close>, which passes every range check (both comparisons are false) and is stored
  as 0.
\<close>

fun to_integer :: "jsval \<Rightarrow> error + int" where
  "to_integer Undefined = Inr 0"
| "to_integer (Number n) = Inr n"
| "to_integer (Boolean b) = Inr (if b then 1 else 0)"
| "to_integer v = Inl Uncoerced"

definition write_int :: "bool \<Rightarrow> nat \<Rightarrow> int \<Rightarrow> int \<Rightarrow> jsval \<Rightarrow> buffer \<Rightarrow> nat \<Rightarrow> error + buffer" where
  "write_int le k lo hi v pack pos =
     (case to_integer v of Inl e \<Rightarrow> Inl e
      | Inr n \<Rightarrow>
          if n < lo \<or> hi < n then Inl RangeError
          else if length pack < pos + k then Inl RangeError
          else Inr (blit (bytes_of le k n) pack pos))"

definition writeUInt :: "bool \<Rightarrow> nat \<Rightarrow> packer" where
  "writeUInt le k v pack pos len = write_int le k 0 (2 ^ (8 * k) - 1) v pack pos"

definition writeInt :: "bool \<Rightarrow> nat \<Rightarrow> packer" where
  "writeInt le k v pack pos len =
     write_int le k (- (2 ^ (8 * k - 1))) (2 ^ (8 * k - 1) - 1) v pack pos"

definition readUInt :: "bool \<Rightarrow> nat \<Rightarrow> unpacker" where
  "readUInt le k data pos len =
     (case read_uint le k data pos of Inl e \<Rightarrow> Inl e | Inr n \<Rightarrow> Inr (Number n))"

definition readInt :: "bool \<Rightarrow> nat \<Rightarrow> unpacker" where
  "readInt le k data pos len =
     (case read_int le k data pos of Inl e \<Rightarrow> Inl e | Inr n \<Rightarrow> Inr (Number n))"

text \<open>
  \<^verbatim>\<open>readFloat*\<close>, \<^verbatim>\<open>readDouble*\<close> and their writers move the 4 or 8 bytes of the bit
  pattern. \<^verbatim>\<open>undefined\<close> is written as the quiet \<^verbatim>\<open>NaN\<close>.
\<close>

definition readFloat :: "bool \<Rightarrow> unpacker" where
  "readFloat le data pos len =
     (case read_uint le 4 data pos of Inl e \<Rightarrow> Inl e | Inr n \<Rightarrow> Inr (Float (word_of_int n)))"

definition readDouble :: "bool \<Rightarrow> unpacker" where
  "readDouble le data pos len =
     (case read_uint le 8 data pos of Inl e \<Rightarrow> Inl e | Inr n \<Rightarrow> Inr (Double (word_of_int n)))"

definition writeFloat :: "bool \<Rightarrow> packer" where
  "writeFloat le v pack pos len =
     (case (case v of Float w \<Rightarrow> Some w | Undefined \<Rightarrow> Some 0x7FC00000 | _ \<Rightarrow> None) of
        None \<Rightarrow> Inl Uncoerced
      | Some w \<Rightarrow>
          if length pack < pos + 4 then Inl RangeError
          else Inr (blit (bytes_of le 4 (uint w)) pack pos))"

definition writeDouble :: "bool \<Rightarrow> packer" where
  "writeDouble le v pack pos len =
     (case (case v of Double w \<Rightarrow> Some w | Undefined \<Rightarrow> Some 0x7FF8000000000000 | _ \<Rightarrow> None) of
        None \<Rightarrow> Inl Uncoerced
      | Some w \<Rightarrow>
          if length pack < pos + 8 then Inl RangeError
          else Inr (blit (bytes_of le 8 (uint w)) pack pos))"

text \<open>
  \<^verbatim>\<open>buf.fill(0, offset, end)\<close> raises when \<open>end\<close> is beyond the buffer and does
  nothing when \<open>end \<le> offset\<close>.
\<close>

definition fill0 :: "buffer \<Rightarrow> nat \<Rightarrow> nat \<Rightarrow> error + buffer" where
  "fill0 buf offset fin =
     (if length buf < fin then Inl RangeError
      else Inr (blit (replicate (fin - offset) 0) buf offset))"

text \<open>
  \<^verbatim>\<open>buf.write(string, offset, length, 'utf8')\<close> stores the longest prefix of the string
  that fits in \<open>length\<close> bytes (at most the room left after \<open>offset\<close>) and does
  not split a character, and returns the number of bytes written. An offset or a length
  beyond the buffer's length raises \<open>RangeError\<close>, a value that is not a string
  \<open>TypeError\<close>. A continuation byte of UTF-8 is \<open>10xxxxxx\<close>.
\<close>

definition is_continuation :: "byte \<Rightarrow> bool" where
  "is_continuation b = (0x80 \<le> b \<and> b < 0xC0)"

fun whole_chars :: "byte list \<Rightarrow> nat \<Rightarrow> nat" where
  "whole_chars bs 0 = 0"
| "whole_chars bs (Suc k) =
     (if length bs \<le> Suc k then length bs
      else if is_continuation (bs ! Suc k) then whole_chars bs k
      else Suc k)"

definition buf_write :: "jsval \<Rightarrow> buffer \<Rightarrow> nat \<Rightarrow> nat \<Rightarrow> error + buffer \<times> nat" where
  "buf_write v buf offset len =
     (case v of
        Text bs \<Rightarrow>
          if length buf < offset \<or> length buf < len then Inl RangeError
          else let written = whole_chars bs (min len (length buf - offset))
               in Inr (blit (take written bs) buf offset, written)
      | _ \<Rightarrow> Inl TypeError)"

text \<open>
  \<^verbatim>\<open>src.copy(target, targetStart, sourceStart, sourceEnd)\<close> with \<open>sourceStart = 0\<close>:
  a negative \<open>sourceEnd\<close> raises \<open>RangeError\<close>; otherwise the bytes of the source
  up to \<open>sourceEnd\<close> are copied as far as the target has room.
\<close>

definition buf_copy :: "byte list \<Rightarrow> buffer \<Rightarrow> nat \<Rightarrow> int \<Rightarrow> error + buffer" where
  "buf_copy src target targetStart sourceEnd =
     (if sourceEnd < 0 then Inl RangeError
      else Inr (blit (take (nat sourceEnd) src) target targetStart))"

text \<open>
  \<^verbatim>\<open>String.fromCharCode(b)\<close> for a byte, and \<^verbatim>\<open>s.charCodeAt(0)\<close>, on strings given
  by their UTF-8 encoding. \<^verbatim>\<open>charCodeAt\<close> is the first UTF-16 code unit, \<open>None\<close>
  stands for the \<^verbatim>\<open>NaN\<close> of the empty string.
\<close>

definition fromCharCode :: "byte option \<Rightarrow> byte list" where
  "fromCharCode b =
     (case b of None \<Rightarrow> [0]
      | Some c \<Rightarrow> if c < 0x80 then [c] else [0xC0 OR drop_bit 6 c, 0x80 OR (c AND 0x3F)])"

definition continuation :: "byte list \<Rightarrow> nat \<Rightarrow> nat" where
  "continuation bs i = (if i < length bs then unat (bs ! i) mod 64 else 0)"

fun charCodeAt0 :: "byte list \<Rightarrow> nat option" where
  "charCodeAt0 [] = None"
| "charCodeAt0 (b # bs) = Some
     (if b < 0x80 then unat b
      else if b < 0xE0 then (unat b mod 32) * 64 + continuation bs 0
      else if b < 0xF0 then
        (unat b mod 16) * 4096 + continuation bs 0 * 64 + continuation bs 1
      else
        (let cp = (unat b mod 8) * 262144 + continuation bs 0 * 4096
                   + continuation bs 1 * 64 + continuation bs 2
         in 0xD800 + (cp - 0x10000) div 1024))"

section \<open>String codecs\<close>

text \<open>\<^verbatim>\<open>data.indexOf(0, pos)\<close>: the first zero byte at or after \<open>pos\<close>.\<close>

definition indexOf0 :: "buffer \<Rightarrow> nat \<Rightarrow> nat option" where
  "indexOf0 data pos = (case filter (\<lambda>i. data ! i = 0) [pos ..< length data] of
      [] \<Rightarrow> None | i # _ \<Rightarrow> Some i)"

definition slice :: "buffer \<Rightarrow> nat \<Rightarrow> nat \<Rightarrow> byte list" where
  "slice data start fin = take (fin - start) (drop start data)"

definition UNPACK_STRING :: unpacker where
  "UNPACK_STRING data pos len =
     (let nextZero = indexOf0 data pos;
          endIndex = min (pos + len) (case nextZero of None \<Rightarrow> length data | Some z \<Rightarrow> z)
      in Inr (Text (slice data pos endIndex)))"

definition PACK_STRING :: packer where
  "PACK_STRING data pack pos len =
     (case buf_write data pack pos len of Inl e \<Rightarrow> Inl e
      | Inr (pack, written) \<Rightarrow>
          if written < len then fill0 pack (pos + written) (pos + len) else Inr pack)"

text \<open>
  \<^verbatim>\<open>UNPACK_PASCAL_STRING\<close> reads \<^verbatim>\<open>data[0]\<close>. When the buffer is empty \<open>n\<close> is
  \<^verbatim>\<open>undefined\<close>, the comparison is false and the slice is empty.
\<close>

definition UNPACK_PASCAL_STRING :: unpacker where
  "UNPACK_PASCAL_STRING data pos len =
     (case index data 0 of
        None \<Rightarrow> Inr (Text [])
      | Some b \<Rightarrow>
          let n = (if int len \<le> uint b then int len - 1 else uint b);
              pos = pos + 1
          in Inr (Text (slice data pos (nat (int pos + n)))))"

text \<open>
  \<^verbatim>\<open>PACK_PASCAL_STRING\<close> stores the count with \<^verbatim>\<open>bytes[pos] = n\<close>, in the encoded
  text, and then copies from it.
\<close>

definition PACK_PASCAL_STRING :: packer where
  "PACK_PASCAL_STRING data pack pos len =
     (case data of
        Text t \<Rightarrow>
          let bytes = t;
              n = int (length bytes);
              n = (if int len \<le> n then int len - 1 else n);
              n = (if 255 < n then 255 else n);
              bytes = bytes[pos := word_of_int n]
          in (case buf_copy bytes pack (pos + 1) n of Inl e \<Rightarrow> Inl e
              | Inr pack \<Rightarrow> fill0 pack (nat (int pos + 1 + n)) (pos + len))
      | _ \<Rightarrow> Inl TypeError)"

section \<open>64-bit values\<close>

text \<open>
  \<^verbatim>\<open>Long.fromBits(low, high, unsigned)\<close> keeps the two halves. \<^verbatim>\<open>Long.fromInt(value)\<close>
  takes \<^verbatim>\<open>value | 0\<close> as the low half and its sign as the high half.
\<close>

definition UNPACK_64 :: "bool \<Rightarrow> bool \<Rightarrow> unpacker" where
  "UNPACK_64 le uns data pos len =
     (if le then
        (case read_int True 4 data pos of Inl e \<Rightarrow> Inl e
         | Inr low \<Rightarrow>
             (case read_int True 4 data (pos + 4) of Inl e \<Rightarrow> Inl e
              | Inr high \<Rightarrow> Inr (LongV (word_of_int low) (word_of_int high) uns)))
      else
        (case read_int False 4 data (pos + 4) of Inl e \<Rightarrow> Inl e
         | Inr low \<Rightarrow>
             (case read_int False 4 data pos of Inl e \<Rightarrow> Inl e
              | Inr high \<Rightarrow> Inr (LongV (word_of_int low) (word_of_int high) uns))))"

definition UNPACK_UINT64_LE :: unpacker where "UNPACK_UINT64_LE = UNPACK_64 True True"
definition UNPACK_UINT64_BE :: unpacker where "UNPACK_UINT64_BE = UNPACK_64 False True"
definition UNPACK_INT64_LE :: unpacker where "UNPACK_INT64_LE = UNPACK_64 True False"
definition UNPACK_INT64_BE :: unpacker where "UNPACK_INT64_BE = UNPACK_64 False False"

fun fromInt :: "jsval \<Rightarrow> error + 32 word \<times> 32 word" where
  "fromInt (LongV low high uns) = Inr (low, high)"
| "fromInt v =
     (case to_integer v of Inl e \<Rightarrow> Inl e
      | Inr n \<Rightarrow> Inr (word_of_int n, if sint (word_of_int n :: 32 word) < 0 then - 1 else 0))"

definition PACK_INT64_LE :: packer where
  "PACK_INT64_LE data pack pos len =
     (case fromInt data of Inl e \<Rightarrow> Inl e
      | Inr (low, high) \<Rightarrow>
          (case writeInt True 4 (Number (sint low)) pack pos len of Inl e \<Rightarrow> Inl e
           | Inr pack \<Rightarrow> writeInt True 4 (Number (sint high)) pack (pos + 4) len))"

definition PACK_INT64_BE :: packer where
  "PACK_INT64_BE data pack pos len =
     (case fromInt data of Inl e \<Rightarrow> Inl e
      | Inr (low, high) \<Rightarrow>
          (case writeInt False 4 (Number (sint high)) pack pos len of Inl e \<Rightarrow> Inl e
           | Inr pack \<Rightarrow> writeInt False 4 (Number (sint low)) pack (pos + 4) len))"

definition PACK_UINT64_LE :: packer where "PACK_UINT64_LE = PACK_INT64_LE"
definition PACK_UINT64_BE :: packer where "PACK_UINT64_BE = PACK_INT64_BE"

definition UNPACK_UINT32_LE :: unpacker where "UNPACK_UINT32_LE = readUInt True 4"
definition UNPACK_UINT32_BE :: unpacker where "UNPACK_UINT32_BE = readUInt False 4"
definition UNPACK_INT32_LE :: unpacker where "UNPACK_INT32_LE = readInt True 4"
definition UNPACK_INT32_BE :: unpacker where "UNPACK_INT32_BE = readInt False 4"
definition PACK_UINT32_LE :: packer where "PACK_UINT32_LE = writeUInt True 4"
definition PACK_UINT32_BE :: packer where "PACK_UINT32_BE = writeUInt False 4"
definition PACK_INT32_LE :: packer where "PACK_INT32_LE = writeInt True 4"
definition PACK_INT32_BE :: packer where "PACK_INT32_BE = writeInt False 4"

section \<open>The codecs of the one-byte codes\<close>

text \<open>
  The tables give \<^verbatim>\<open>c\<close>, \<^verbatim>\<open>B\<close> and \<^verbatim>\<open>?\<close> as anonymous functions on
  \<^verbatim>\<open>data[pos]\<close> and \<^verbatim>\<open>pack[pos]\<close>; they are the same in the three tables.
\<close>

definition unpack_c :: unpacker where
  "unpack_c data pos len = Inr (Text (fromCharCode (index data pos)))"

definition pack_c :: packer where
  "pack_c data pack pos len =
     (case data of
        Text t \<Rightarrow>
          Inr (pack[pos := (case charCodeAt0 t of None \<Rightarrow> 0 | Some n \<Rightarrow> of_nat n)])
      | _ \<Rightarrow> Inl TypeError)"

definition unpack_B :: unpacker where
  "unpack_B data pos len =
     Inr (case index data pos of None \<Rightarrow> Undefined | Some b \<Rightarrow> Number (uint b))"

definition pack_B :: packer where
  "pack_B data pack pos len =
     (case to_integer data of Inl e \<Rightarrow> Inl e | Inr n \<Rightarrow> Inr (pack[pos := word_of_int n]))"

definition unpack_bool :: unpacker where
  "unpack_bool data pos len =
     Inr (Boolean (case index data pos of None \<Rightarrow> True | Some b \<Rightarrow> b \<noteq> 0))"

fun truthy :: "jsval \<Rightarrow> bool" where
  "truthy Undefined = False"
| "truthy (Number n) = (n \<noteq> 0)"
| "truthy (Boolean b) = b"
| "truthy (Text t) = (t \<noteq> [])"
| "truthy (LongV low high uns) = True"
| "truthy (Float w) = (w AND 0x7FFFFFFF \<noteq> 0 \<and> w AND 0x7FFFFFFF \<le> 0x7F800000)"
| "truthy (Double w) =
     (w AND 0x7FFFFFFFFFFFFFFF \<noteq> 0 \<and> w AND 0x7FFFFFFFFFFFFFFF \<le> 0x7FF0000000000000)"

definition pack_bool :: packer where
  "pack_bool data pack pos len = Inr (pack[pos := (if truthy data then 1 else 0)])"

section \<open>The three tables\<close>

definition NATIVE_MAP :: "platform \<Rightarrow> char \<rightharpoonup> op" where
  "NATIVE_MAP env =
     (let le = IS_LITTLE_ENDIAN env; w = IS_64bit env in map_of
     [ (CHR ''x'', (1, 1, None, None)),
       (CHR ''c'', (1, 1, Some unpack_c, Some pack_c)),
       (CHR ''b'', (1, 1, Some (readInt True 1), Some (writeInt True 1))),
       (CHR ''B'', (1, 1, Some unpack_B, Some pack_B)),
       (CHR ''h'', (2, 2, Some (readInt le 2), Some (writeInt le 2))),
       (CHR ''H'', (2, 2, Some (readUInt le 2), Some (writeUInt le 2))),
       (CHR ''i'', (4, 4, Some (if le then UNPACK_INT32_LE else UNPACK_INT32_BE),
                         Some (if le then PACK_INT32_LE else PACK_INT32_BE))),
       (CHR ''I'', (4, 4, Some (if le then UNPACK_UINT32_LE else UNPACK_UINT32_BE),
                         Some (if le then PACK_UINT32_LE else PACK_UINT32_BE))),
       (CHR ''l'', (4, 4, Some (if le then UNPACK_INT32_LE else UNPACK_INT32_BE),
                         Some (if le then PACK_INT32_LE else PACK_INT32_BE))),
       (CHR ''L'', (4, 4, Some (if le then UNPACK_UINT32_LE else UNPACK_UINT32_BE),
                         Some (if le then PACK_UINT32_LE else PACK_UINT32_BE))),
       (CHR ''f'', (4, 4, Some (readFloat le), Some (writeFloat le))),
       (CHR ''d'', (8, 8, Some (readDouble le), Some (writeDouble le))),
       (CHR ''s'', (1, 1, Some UNPACK_STRING, Some PACK_STRING)),
       (CHR ''p'', (1, 1, Some UNPACK_PASCAL_STRING, Some PACK_PASCAL_STRING)),
       (CHR ''P'', (if w then 8 else 4, if w then 8 else 4,
                   Some (if le then (if w then UNPACK_UINT64_LE else UNPACK_UINT32_LE)
                         else (if w then UNPACK_UINT64_BE else UNPACK_UINT32_BE)),
                   Some (if le then (if w then PACK_UINT64_LE else PACK_UINT32_LE)
                         else (if w then PACK_UINT64_BE else PACK_UINT32_BE)))),
       (CHR ''q'', (8, 8, Some (if le then UNPACK_INT64_LE else UNPACK_INT64_BE),
                         Some (if le then PACK_INT64_LE else PACK_INT64_BE))),
       (CHR ''Q'', (8, 8, Some (if le then UNPACK_UINT64_LE else UNPACK_UINT64_BE),
                         Some (if le then PACK_UINT64_LE else PACK_UINT64_BE))),
       (CHR ''?'', (1, 1, Some unpack_bool, Some pack_bool)) ])"

definition LITTLE_ENDIAN_MAP :: "platform \<Rightarrow> char \<rightharpoonup> op" where
  "LITTLE_ENDIAN_MAP env =
     (let w = IS_64bit env in map_of
     [ (CHR ''x'', (1, 1, None, None)),
       (CHR ''c'', (1, 1, Some unpack_c, Some pack_c)),
       (CHR ''b'', (1, 1, Some (readInt True 1), Some (writeInt True 1))),
       (CHR ''B'', (1, 1, Some unpack_B, Some pack_B)),
       (CHR ''h'', (2, 1, Some (readInt True 2), Some (writeInt True 2))),
       (CHR ''H'', (2, 1, Some (readUInt True 2), Some (writeUInt True 2))),
       (CHR ''i'', (4, 1, Some UNPACK_INT32_LE, Some PACK_INT32_LE)),
       (CHR ''I'', (4, 1, Some UNPACK_UINT32_LE, Some PACK_UINT32_LE)),
       (CHR ''l'', (4, 1, Some UNPACK_INT32_LE, Some PACK_INT32_LE)),
       (CHR ''L'', (4, 1, Some UNPACK_UINT32_LE, Some PACK_UINT32_LE)),
       (CHR ''f'', (4, 1, Some (readFloat True), Some (writeFloat True))),
       (CHR ''d'', (8, 1, Some (readDouble True), Some (writeDouble True))),
       (CHR ''s'', (1, 1, Some UNPACK_STRING, Some PACK_STRING)),
       (CHR ''p'', (1, 1, Some UNPACK_PASCAL_STRING, Some PACK_PASCAL_STRING)),
       (CHR ''P'', (if w then 8 else 4, 1,
                   Some (if w then UNPACK_UINT64_LE else UNPACK_UINT32_LE),
                   Some (if w then PACK_UINT64_LE else PACK_UINT32_LE))),
       (CHR ''q'', (8, 1, Some UNPACK_INT64_LE, Some PACK_INT64_LE)),
       (CHR ''Q'', (8, 1, Some UNPACK_UINT64_LE, Some PACK_UINT64_LE)),
       (CHR ''?'', (1, 1, Some unpack_bool, Some pack_bool)) ])"

definition BIG_ENDIAN_MAP :: "platform \<Rightarrow> char \<rightharpoonup> op" where
  "BIG_ENDIAN_MAP env =
     (let w = IS_64bit env in map_of
     [ (CHR ''x'', (1, 1, None, None)),
       (CHR ''c'', (1, 1, Some unpack_c, Some pack_c)),
       (CHR ''b'', (1, 1, Some (readInt True 1), Some (writeInt True 1))),
       (CHR ''B'', (1, 1, Some unpack_B, Some pack_B)),
       (CHR ''h'', (2, 1, Some (readInt False 2), Some (writeInt False 2))),
       (CHR ''H'', (2, 1, Some (readUInt False 2), Some (writeUInt False 2))),
       (CHR ''i'', (4, 1, Some UNPACK_INT32_BE, Some PACK_INT32_BE)),
       (CHR ''I'', (4, 1, Some UNPACK_UINT32_BE, Some PACK_UINT32_BE)),
       (CHR ''l'', (4, 1, Some UNPACK_INT32_BE, Some PACK_INT32_BE)),
       (CHR ''L'', (4, 1, Some UNPACK_UINT32_BE, Some PACK_UINT32_BE)),
       (CHR ''f'', (4, 1, Some (readFloat False), Some (writeFloat False))),
       (CHR ''d'', (8, 1, Some (readDouble False), Some (writeDouble False))),
       (CHR ''s'', (1, 1, Some UNPACK_STRING, Some PACK_STRING)),
       (CHR ''p'', (1, 1, Some UNPACK_PASCAL_STRING, Some PACK_PASCAL_STRING)),
       (CHR ''P'', (if w then 8 else 4, 1,
                   Some (if w then UNPACK_UINT64_BE else UNPACK_UINT32_BE),
                   Some (if w then PACK_UINT64_BE else PACK_UINT32_BE))),
       (CHR ''q'', (8, 1, Some UNPACK_INT64_BE, Some PACK_INT64_BE)),
       (CHR ''Q'', (8, 1, Some UNPACK_UINT64_BE, Some PACK_UINT64_BE)),
       (CHR ''?'', (1, 1, Some unpack_bool, Some pack_bool)) ])"

definition selectMap :: "platform \<Rightarrow> string \<Rightarrow> (char \<rightharpoonup> op) \<times> bool" where
  "selectMap env format =
     (case format of
        [] \<Rightarrow> (NATIVE_MAP env, False)
      | c # _ \<Rightarrow>
          if c = CHR ''<'' then (LITTLE_ENDIAN_MAP env, True)
          else if c = CHR ''>'' \<or> c = CHR ''!'' then (BIG_ENDIAN_MAP env, True)
          else if c = CHR ''='' then
            (if IS_LITTLE_ENDIAN env then LITTLE_ENDIAN_MAP env else BIG_ENDIAN_MAP env, True)
          else if c = CHR ''@'' then (NATIVE_MAP env, True)
          else (NATIVE_MAP env, False))"

section \<open>The walk over the format string\<close>

text \<open>
  The pending repeat count \<^verbatim>\<open>decimal\<close> is \<^verbatim>\<open>null\<close> or a string of digits. It is
  parsed by \<^verbatim>\<open>decimal ? parseInt(decimal, 10) : 0\<close>; a string of digits is never empty,
  so it is always truthy. Sizes and positions are natural numbers (the loss of precision
  of JavaScript numbers above \<open>2\<^sup>5\<^sup>3\<close> is not modelled).
\<close>

definition is_digit :: "char \<Rightarrow> bool" where
  "is_digit c = (CHR ''0'' \<le> c \<and> c \<le> CHR ''9'')"

definition parseInt10 :: "string \<Rightarrow> nat" where
  "parseInt10 ds = foldl (\<lambda>n d. 10 * n + (of_char d - 48)) 0 ds"

definition accumulate :: "string option \<Rightarrow> char \<Rightarrow> string option" where
  "accumulate decimal c = Some (case decimal of None \<Rightarrow> [c] | Some d \<Rightarrow> d @ [c])"

definition parse_decimal :: "string option \<Rightarrow> nat" where
  "parse_decimal decimal = (case decimal of None \<Rightarrow> 0 | Some d \<Rightarrow> parseInt10 d)"

text \<open>\<^verbatim>\<open>if (align > 1) position = Math.ceil(position / align) * align\<close>\<close>

definition align_to :: "nat \<Rightarrow> nat \<Rightarrow> nat" where
  "align_to position align =
     (if 1 < align then ((position + align - 1) div align) * align else position)"

definition or1 :: "nat \<Rightarrow> nat" where
  "or1 decimal = (if decimal = 0 then 1 else decimal)"

text \<open>
  \<^verbatim>\<open>unpackFrom\<close> and \<^verbatim>\<open>pack\<close> set \<^verbatim>\<open>repeat\<close> and \<^verbatim>\<open>size\<close> by the same three
  branches: \<^verbatim>\<open>s\<close> is one field of \<^verbatim>\<open>decimal\<close> bytes, \<^verbatim>\<open>p\<close> one field of
  \<^verbatim>\<open>decimal || 1\<close> bytes, any other code \<^verbatim>\<open>decimal || 1\<close> fields of \<^verbatim>\<open>op[0]\<close> bytes.
\<close>

definition repeat_size :: "char \<Rightarrow> nat \<Rightarrow> nat \<Rightarrow> nat \<times> nat" where
  "repeat_size c op0 decimal =
     (if c = CHR ''s'' then (1, decimal)
      else if c = CHR ''p'' then (1, or1 decimal)
      else (or1 decimal, op0))"

subsection \<open>sizeOf\<close>

fun sizeOf_loop :: "(char \<rightharpoonup> op) \<Rightarrow> string \<Rightarrow> nat \<Rightarrow> string option \<Rightarrow> nat" where
  "sizeOf_loop m [] sz decimal = sz"
| "sizeOf_loop m (c # cs) sz decimal =
     (if is_digit c then sizeOf_loop m cs sz (accumulate decimal c)
      else case m c of
        None \<Rightarrow> sizeOf_loop m cs sz decimal
      | Some (op0, align, _, _) \<Rightarrow>
          let sz = align_to sz align;
              decimal = parse_decimal decimal;
              sz = (if c = CHR ''s'' then sz + decimal
                    else if c = CHR ''p'' then sz + or1 decimal
                    else sz + op0 * or1 decimal)
          in sizeOf_loop m cs sz None)"

definition sizeOf :: "platform \<Rightarrow> string \<Rightarrow> nat" where
  "sizeOf env format =
     (let (m, skipFirst) = selectMap env format
      in sizeOf_loop m (if skipFirst then drop 1 format else format) 0 None)"

subsection \<open>unpackFrom and unpack\<close>

text \<open>The inner \<^verbatim>\<open>while (repeat > 0)\<close> loop; the position advances inside \<^verbatim>\<open>if (unpack)\<close>.\<close>

fun unpack_while ::
  "unpacker option \<Rightarrow> bool \<Rightarrow> buffer \<Rightarrow> nat \<Rightarrow> nat \<Rightarrow> nat \<Rightarrow> jsval list \<times> nat
   \<Rightarrow> error + jsval list \<times> nat" where
  "unpack_while unpack checkBounds data sz decimal 0 (unpacked, position) =
     Inr (unpacked, position)"
| "unpack_while unpack checkBounds data sz decimal (Suc repeat) (unpacked, position) =
     (case unpack of
        None \<Rightarrow> unpack_while unpack checkBounds data sz decimal repeat (unpacked, position)
      | Some f \<Rightarrow>
          if checkBounds \<and> length data \<le> position + sz then Inl TruncatedBuffer
          else case f data position decimal of
            Inl e \<Rightarrow> Inl e
          | Inr v \<Rightarrow>
              unpack_while unpack checkBounds data sz decimal repeat
                (unpacked @ [v], position + sz))"

fun unpack_loop ::
  "(char \<rightharpoonup> op) \<Rightarrow> string \<Rightarrow> buffer \<Rightarrow> bool \<Rightarrow> jsval list \<times> nat \<Rightarrow> string option
   \<Rightarrow> error + jsval list" where
  "unpack_loop m [] data checkBounds (unpacked, position) decimal = Inr unpacked"
| "unpack_loop m (c # cs) data checkBounds (unpacked, position) decimal =
     (if is_digit c then
        unpack_loop m cs data checkBounds (unpacked, position) (accumulate decimal c)
      else case m c of
        None \<Rightarrow> unpack_loop m cs data checkBounds (unpacked, position) decimal
      | Some (op0, align, unpack, _) \<Rightarrow>
          let position = align_to position align;
              decimal = parse_decimal decimal;
              (repeat, sz) = repeat_size c op0 decimal
          in case unpack_while unpack checkBounds data sz decimal repeat (unpacked, position) of
               Inl e \<Rightarrow> Inl e
             | Inr st \<Rightarrow> unpack_loop m cs data checkBounds st None)"

definition unpackFrom :: "platform \<Rightarrow> string \<Rightarrow> buffer \<Rightarrow> bool \<Rightarrow> nat \<Rightarrow> error + jsval list" where
  "unpackFrom env format data checkBounds position =
     (let (m, skipFirst) = selectMap env format
      in unpack_loop m (if skipFirst then drop 1 format else format) data checkBounds
           ([], position) None)"

definition unpack :: "platform \<Rightarrow> string \<Rightarrow> buffer \<Rightarrow> bool \<Rightarrow> error + jsval list" where
  "unpack env format data checkBounds = unpackFrom env format data checkBounds 0"

subsection \<open>pack\<close>

text \<open>
  The inner loop of \<^verbatim>\<open>pack\<close>; here the position advances outside \<^verbatim>\<open>if (pack)\<close>.
  \<^verbatim>\<open>data[dIndex]\<close> beyond the end of the array is \<^verbatim>\<open>undefined\<close>.
\<close>

definition element :: "jsval list \<Rightarrow> nat \<Rightarrow> jsval" where
  "element data i = (if i < length data then data ! i else Undefined)"

fun pack_while ::
  "packer option \<Rightarrow> bool \<Rightarrow> jsval list \<Rightarrow> nat \<Rightarrow> nat \<Rightarrow> nat \<Rightarrow> buffer \<times> nat \<times> nat
   \<Rightarrow> error + buffer \<times> nat \<times> nat" where
  "pack_while pack checkBounds data sz decimal 0 (packed, position, dIndex) =
     Inr (packed, position, dIndex)"
| "pack_while pack checkBounds data sz decimal (Suc repeat) (packed, position, dIndex) =
     (case pack of
        None \<Rightarrow>
          pack_while pack checkBounds data sz decimal repeat (packed, position + sz, dIndex)
      | Some f \<Rightarrow>
          if checkBounds \<and> length data \<le> dIndex then Inl InsufficientValues
          else case f (element data dIndex) packed position decimal of
            Inl e \<Rightarrow> Inl e
          | Inr packed \<Rightarrow>
              pack_while pack checkBounds data sz decimal repeat
                (packed, position + sz, dIndex + 1))"

fun pack_loop ::
  "(char \<rightharpoonup> op) \<Rightarrow> string \<Rightarrow> jsval list \<Rightarrow> bool \<Rightarrow> buffer \<times> nat \<times> nat \<Rightarrow> string option
   \<Rightarrow> error + buffer" where
  "pack_loop m [] data checkBounds (packed, position, dIndex) decimal = Inr packed"
| "pack_loop m (c # cs) data checkBounds (packed, position, dIndex) decimal =
     (if is_digit c then
        pack_loop m cs data checkBounds (packed, position, dIndex) (accumulate decimal c)
      else case m c of
        None \<Rightarrow> pack_loop m cs data checkBounds (packed, position, dIndex) decimal
      | Some (op0, align, _, pack) \<Rightarrow>
          let position = align_to position align;
              decimal = parse_decimal decimal;
              (repeat, sz) = repeat_size c op0 decimal
          in case pack_while pack checkBounds data sz decimal repeat
                    (packed, position, dIndex) of
               Inl e \<Rightarrow> Inl e
             | Inr st \<Rightarrow> pack_loop m cs data checkBounds st None)"

text \<open>
  \<^verbatim>\<open>new Buffer(n)\<close> is a buffer of \<open>n\<close> zero bytes (Node 8 and later).
\<close>

definition new_Buffer :: "nat \<Rightarrow> buffer" where
  "new_Buffer n = replicate n 0"

text \<open>
  \<^verbatim>\<open>class PythonStruct\<close> declares \<^verbatim>\<open>sizeOf\<close>, \<^verbatim>\<open>unpack\<close>, \<^verbatim>\<open>unpackFrom\<close> and
  \<^verbatim>\<open>pack\<close> as methods of its instances: none of them is \<^verbatim>\<open>static\<close>. The definitions
  of this theory are the methods called on an instance, where \<^verbatim>\<open>this.unpackFrom\<close> in
  \<^verbatim>\<open>unpack\<close> is the method above. \<^verbatim>\<open>pack\<close>, however, sizes its buffer with
  \<^verbatim>\<open>PythonStruct.sizeOf(format)\<close>, a property of the class itself. The class has no
  such property, so the callee is \<^verbatim>\<open>undefined\<close> and the call raises \<^verbatim>\<open>TypeError\<close>
  before a buffer is allocated. \<open>PythonStruct_sizeOf\<close> is what the lookup finds.
  The model is \<^verbatim>\<open>pack\<close> called with an array; called with the values as trailing
  arguments it is \<open>pack env format args True\<close>.
\<close>

definition PythonStruct_sizeOf :: "(platform \<Rightarrow> string \<Rightarrow> nat) option" where
  "PythonStruct_sizeOf = None"

definition pack :: "platform \<Rightarrow> string \<Rightarrow> jsval list \<Rightarrow> bool \<Rightarrow> error + buffer" where
  "pack env format data checkBounds =
     (case PythonStruct_sizeOf of
        None \<Rightarrow> Inl TypeError
      | Some callee \<Rightarrow>
          (let packed = new_Buffer (callee env format);
               (m, skipFirst) = selectMap env format
           in pack_loop m (if skipFirst then drop 1 format else format) data checkBounds
                (packed, 0, 0) None))"

text \<open>
  The repository holds a second copy of the module, \<^verbatim>\<open>src/unnamed/part_000\<close>, in which
  \<^verbatim>\<open>PythonStruct\<close> is an object literal with the properties \<^verbatim>\<open>sizeOf\<close>, \<^verbatim>\<open>unpack\<close>
  and \<^verbatim>\<open>pack\<close>. There the same call reaches \<^verbatim>\<open>sizeOf\<close>, and the rest of \<^verbatim>\<open>pack\<close>
  and the pack functions of the three tables are those of \<^verbatim>\<open>index.js\<close>, statement for
  statement. \<open>pack_literal\<close> is \<^verbatim>\<open>pack\<close> of that copy: what \<^verbatim>\<open>pack\<close> of
  \<^verbatim>\<open>index.js\<close> does after its allocation, given the buffer that the allocation is
  meant to produce.
\<close>

definition pack_literal :: "platform \<Rightarrow> string \<Rightarrow> jsval list \<Rightarrow> bool \<Rightarrow> error + buffer" where
  "pack_literal env format data checkBounds =
     (let packed = new_Buffer (sizeOf env format);
          (m, skipFirst) = selectMap env format
      in pack_loop m (if skipFirst then drop 1 format else format) data checkBounds
           (packed, 0, 0) None)"

section \<open>Auxiliary notions for the proofs\<close>

text \<open>A host used where a statement is evaluated: 64-bit and little-endian.\<close>

definition node_x64 :: platform where
  "node_x64 = \<lparr>IS_LITTLE_ENDIAN = True, IS_64bit = True\<rparr>"

text \<open>A pack function keeps the length of the buffer it writes into.\<close>

definition keeps_length :: "packer \<Rightarrow> bool" where
  "keeps_length f = (\<forall>v b p n b'. f v b p n = Inr b' \<longrightarrow> length b' = length b)"

definition packers_keep_length :: "(char \<rightharpoonup> op) \<Rightarrow> bool" where
  "packers_keep_length m =
     (\<forall>c op0 align u f. m c = Some (op0, align, u, Some f) \<longrightarrow> keeps_length f)"

text \<open>The eighteen keys of each table, and those among them that are not text codes.\<close>

definition type_codes :: string where
  "type_codes = ''xcbBhHiIlLfdspPqQ?''"






text \<open>
  The cursor of \<^verbatim>\<open>unpackFrom\<close>, without the buffer: the list of (position, size) of the
  decoding occurrences of a format, in order. The position is aligned before each field
  and advanced by \<open>size\<close> after each occurrence that has an unpack function (the pad
  code has none and leaves the position where it is, as in the loop of \<^verbatim>\<open>unpackFrom\<close>).
  \<open>overruns\<close> says that some occurrence satisfies \<^verbatim>\<open>position + size >= data.length\<close>.
\<close>

fun decoding_spans_loop :: "(char \<rightharpoonup> op) \<Rightarrow> string \<Rightarrow> nat \<Rightarrow> string option \<Rightarrow> (nat \<times> nat) list" where
  "decoding_spans_loop m [] position decimal = []"
| "decoding_spans_loop m (c # cs) position decimal =
     (if is_digit c then decoding_spans_loop m cs position (accumulate decimal c)
      else case m c of
        None \<Rightarrow> decoding_spans_loop m cs position decimal
      | Some (op0, align, u, _) \<Rightarrow>
          let position = align_to position align;
              decimal = parse_decimal decimal;
              (repeat, sz) = repeat_size c op0 decimal
          in case u of
               None \<Rightarrow> decoding_spans_loop m cs position None
             | Some f \<Rightarrow>
                 map (\<lambda>i. (position + i * sz, sz)) [0 ..< repeat]
                 @ decoding_spans_loop m cs (position + repeat * sz) None)"

definition decoding_spans :: "platform \<Rightarrow> string \<Rightarrow> nat \<Rightarrow> (nat \<times> nat) list" where
  "decoding_spans env format position =
     (let (m, skipFirst) = selectMap env format
      in decoding_spans_loop m (if skipFirst then drop 1 format else format) position None)"

definition overruns :: "buffer \<Rightarrow> (nat \<times> nat) list \<Rightarrow> bool" where
  "overruns data spans = list_ex (\<lambda>(p, sz). length data \<le> p + sz) spans"

text \<open>Every unpack function of a table returns a value when its span is inside the buffer.\<close>

definition reads_in_range :: "(char \<rightharpoonup> op) \<Rightarrow> bool" where
  "reads_in_range m =
     (\<forall>c op0 al f pk data pos n. m c = Some (op0, al, Some f, pk) \<longrightarrow>
        pos + snd (repeat_size c op0 n) < length data \<longrightarrow> (\<exists>v. f data pos n = Inr v))"

text \<open>
  The number of values a format consumes in \<^verbatim>\<open>pack\<close>: one for each occurrence of a
  field that has a pack function (the pad code has none). It is the walk of \<^verbatim>\<open>pack\<close>
  without the buffer and the values.
\<close>

fun values_needed_loop :: "(char \<rightharpoonup> op) \<Rightarrow> string \<Rightarrow> string option \<Rightarrow> nat" where
  "values_needed_loop m [] decimal = 0"
| "values_needed_loop m (c # cs) decimal =
     (if is_digit c then values_needed_loop m cs (accumulate decimal c)
      else case m c of
        None \<Rightarrow> values_needed_loop m cs decimal
      | Some (op0, align, _, pk) \<Rightarrow>
          let decimal = parse_decimal decimal;
              (repeat, sz) = repeat_size c op0 decimal
          in (case pk of None \<Rightarrow> 0 | Some g \<Rightarrow> repeat) + values_needed_loop m cs None)"

definition values_needed :: "platform \<Rightarrow> string \<Rightarrow> nat" where
  "values_needed env format =
     (let (m, skipFirst) = selectMap env format
      in values_needed_loop m (if skipFirst then drop 1 format else format) None)"

text \<open>No pack function of a table raises the insufficient-values error itself.\<close>

definition never_insufficient :: "(char \<rightharpoonup> op) \<Rightarrow> bool" where
  "never_insufficient m =
     (\<forall>c op0 al u g v b p n. m c = Some (op0, al, u, Some g) \<longrightarrow>
        g v b p n \<noteq> Inl InsufficientValues)"

section \<open>Properties\<close>

subsection \<open>The buffer returned by pack\<close>

lemma length_blit [simp]: "length (blit bs buf pos) = length buf"
  by (induction bs arbitrary: buf pos) auto

lemma keeps_length_write_int:
  "write_int le k lo hi v b p = Inr b' \<Longrightarrow> length b' = length b"
  by (auto simp: write_int_def split: sum.splits if_splits)

lemma keeps_length_writeInt: "keeps_length (writeInt le k)"
  by (auto simp: keeps_length_def writeInt_def dest: keeps_length_write_int)

lemma keeps_length_writeUInt: "keeps_length (writeUInt le k)"
  by (auto simp: keeps_length_def writeUInt_def dest: keeps_length_write_int)

lemma keeps_length_writeFloat: "keeps_length (writeFloat le)"
  by (auto simp: keeps_length_def writeFloat_def split: option.splits if_splits)

lemma keeps_length_writeDouble: "keeps_length (writeDouble le)"
  by (auto simp: keeps_length_def writeDouble_def split: option.splits if_splits)

lemma keeps_length_pack_c: "keeps_length pack_c"
  by (auto simp: keeps_length_def pack_c_def split: jsval.splits)

lemma keeps_length_pack_B: "keeps_length pack_B"
  by (auto simp: keeps_length_def pack_B_def split: sum.splits)

lemma keeps_length_pack_bool: "keeps_length pack_bool"
  by (auto simp: keeps_length_def pack_bool_def)

lemma keeps_length_fill0: "fill0 b x y = Inr b' \<Longrightarrow> length b' = length b"
  by (auto simp: fill0_def split: if_splits)

lemma keeps_length_PACK_STRING: "keeps_length PACK_STRING"
  by (auto simp: keeps_length_def PACK_STRING_def buf_write_def Let_def
      split: sum.splits jsval.splits if_splits dest!: keeps_length_fill0)

lemma keeps_length_PACK_PASCAL_STRING: "keeps_length PACK_PASCAL_STRING"
  by (auto simp: keeps_length_def PACK_PASCAL_STRING_def buf_copy_def Let_def
      split: sum.splits jsval.splits if_splits dest!: keeps_length_fill0)

lemma keeps_length_PACK_INT64_LE: "keeps_length PACK_INT64_LE"
  using keeps_length_writeInt[of True 4]
  by (fastforce simp: keeps_length_def PACK_INT64_LE_def split: sum.splits prod.splits)

lemma keeps_length_PACK_INT64_BE: "keeps_length PACK_INT64_BE"
  using keeps_length_writeInt[of False 4]
  by (fastforce simp: keeps_length_def PACK_INT64_BE_def split: sum.splits prod.splits)

lemmas keeps_length_packers =
  keeps_length_writeInt keeps_length_writeUInt keeps_length_writeFloat keeps_length_writeDouble
  keeps_length_pack_c keeps_length_pack_B keeps_length_pack_bool keeps_length_PACK_STRING
  keeps_length_PACK_PASCAL_STRING keeps_length_PACK_INT64_LE keeps_length_PACK_INT64_BE

lemma NATIVE_MAP_keeps: "packers_keep_length (NATIVE_MAP env)"
  unfolding packers_keep_length_def NATIVE_MAP_def Let_def
  by (auto simp: keeps_length_packers PACK_INT32_LE_def PACK_INT32_BE_def PACK_UINT32_LE_def
      PACK_UINT32_BE_def PACK_UINT64_LE_def PACK_UINT64_BE_def split: if_splits)

lemma LITTLE_ENDIAN_MAP_keeps: "packers_keep_length (LITTLE_ENDIAN_MAP env)"
  unfolding packers_keep_length_def LITTLE_ENDIAN_MAP_def Let_def
  by (auto simp: keeps_length_packers PACK_INT32_LE_def PACK_INT32_BE_def PACK_UINT32_LE_def
      PACK_UINT32_BE_def PACK_UINT64_LE_def PACK_UINT64_BE_def split: if_splits)

lemma BIG_ENDIAN_MAP_keeps: "packers_keep_length (BIG_ENDIAN_MAP env)"
  unfolding packers_keep_length_def BIG_ENDIAN_MAP_def Let_def
  by (auto simp: keeps_length_packers PACK_INT32_LE_def PACK_INT32_BE_def PACK_UINT32_LE_def
      PACK_UINT32_BE_def PACK_UINT64_LE_def PACK_UINT64_BE_def split: if_splits)

lemma selectMap_cases:
  "fst (selectMap env format) = NATIVE_MAP env \<or> fst (selectMap env format) = LITTLE_ENDIAN_MAP env
   \<or> fst (selectMap env format) = BIG_ENDIAN_MAP env"
  by (auto simp: selectMap_def split: list.splits)

lemma selectMap_keeps: "packers_keep_length (fst (selectMap env format))"
  using selectMap_cases[of env format] NATIVE_MAP_keeps LITTLE_ENDIAN_MAP_keeps BIG_ENDIAN_MAP_keeps
  by metis

lemma pack_while_length:
  "pack_while pk cb data sz dec r (b, p, d) = Inr (b', p', d') \<Longrightarrow>
   (\<forall>f. pk = Some f \<longrightarrow> keeps_length f) \<Longrightarrow> length b' = length b"
proof (induction r arbitrary: b p d)
  case 0
  then show ?case by simp
next
  case (Suc r)
  show ?case
  proof (cases pk)
    case None
    with Suc show ?thesis by simp
  next
    case (Some f)
    with Suc.prems obtain b1 where f: "f (element data d) b p dec = Inr b1"
      and rest: "pack_while pk cb data sz dec r (b1, p + sz, d + 1) = Inr (b', p', d')"
      by (auto split: if_splits sum.splits)
    from Suc.prems(2) Some f have "length b1 = length b" by (auto simp: keeps_length_def)
    with Suc.IH[OF rest Suc.prems(2)] show ?thesis by simp
  qed
qed

lemma pack_loop_length:
  "pack_loop m cs data cb (b, p, d) dec = Inr b' \<Longrightarrow> packers_keep_length m \<Longrightarrow>
   length b' = length b"
proof (induction cs arbitrary: b p d dec)
  case Nil
  then show ?case by simp
next
  case (Cons c cs)
  show ?case
  proof (cases "is_digit c")
    case True
    with Cons show ?thesis by simp
  next
    case False
    show ?thesis
    proof (cases "m c")
      case None
      with False Cons show ?thesis by simp
    next
      case (Some e)
      obtain op0 align u pk where e: "e = (op0, align, u, pk)" by (cases e) auto
      have pk: "\<forall>f. pk = Some f \<longrightarrow> keeps_length f"
        using Cons.prems(2) Some e by (auto simp: packers_keep_length_def)
      from Cons.prems(1) False Some e obtain rp sz b1 p1 d1 where
        w: "pack_while pk cb data sz (parse_decimal dec) rp (b, align_to p align, d) = Inr (b1, p1, d1)"
        and rest: "pack_loop m cs data cb (b1, p1, d1) None = Inr b'"
        by (auto simp: Let_def split: sum.splits prod.splits)
      from pack_while_length[OF w pk] Cons.IH[OF rest Cons.prems(2)] show ?thesis by simp
    qed
  qed
qed

text \<open>
  In the object-literal copy, whenever \<^verbatim>\<open>pack\<close> completes without error the buffer
  it returns has exactly \<open>sizeOf format\<close> bytes: it is the buffer allocated with that
  size, and no pack function of the three tables changes the length of the buffer it
  writes into.
\<close>

lemma pack_literal_length:
  "pack_literal env format data checkBounds = Inr packed \<Longrightarrow> length packed = sizeOf env format"
proof -
  assume a: "pack_literal env format data checkBounds = Inr packed"
  obtain m sk where ms: "selectMap env format = (m, sk)" by (cases "selectMap env format") auto
  have k: "packers_keep_length m" using selectMap_keeps[of env format] ms by simp
  from a ms have "pack_loop m (if sk then drop 1 format else format) data checkBounds
       (new_Buffer (sizeOf env format), 0, 0) None = Inr packed"
    by (simp add: pack_literal_def Let_def)
  from pack_loop_length[OF this k] show ?thesis by (simp add: new_Buffer_def)
qed

text \<open>
  \<^verbatim>\<open>pack\<close> of \<^verbatim>\<open>index.js\<close> raises \<^verbatim>\<open>TypeError\<close> at its allocation, whatever the
  format and the values are.
\<close>

lemma pack_TypeError: "pack env format data checkBounds = Inl TypeError"
  by (simp add: pack_def PythonStruct_sizeOf_def)

text \<open>
  Claim C7. \<^verbatim>\<open>pack\<close> is described as allocating a buffer of \<open>sizeOf format\<close> bytes
  and returning that buffer. \<^verbatim>\<open>pack\<close> of \<^verbatim>\<open>index.js\<close> allocates no buffer and returns
  none: the callee \<^verbatim>\<open>PythonStruct.sizeOf\<close> of the allocation is undefined, because
  \<^verbatim>\<open>sizeOf\<close> is not declared \<^verbatim>\<open>static\<close>, and every call ends in \<^verbatim>\<open>TypeError\<close>. For
  the format \<^verbatim>\<open><hB\<close>, of size 3, and the values 1 and 2 no buffer of 3 bytes comes back;
  where the call reaches \<^verbatim>\<open>sizeOf\<close>, in the object-literal copy, the same statements
  return the 3 bytes 1, 0, 2.
\<close>

theorem pack_allocates_no_buffer:
  "pack env format data checkBounds = Inl TypeError
   \<and> pack node_x64 ''<hB'' [Number 1, Number 2] False = Inl TypeError
   \<and> sizeOf node_x64 ''<hB'' = 3
   \<and> pack_literal node_x64 ''<hB'' [Number 1, Number 2] False = Inr [1, 0, 2]"
proof -
  have h: "pack_literal node_x64 ''<hB'' [Number 1, Number 2] False = Inr [1, 0, 2]"
    by code_simp
  have s: "sizeOf node_x64 ''<hB'' = 3"
    using pack_literal_length [OF h] by simp
  show ?thesis using h s by (simp add: pack_TypeError)
qed

subsection \<open>Size additivity\<close>

lemmas walk_defs = sizeOf_def selectMap_def NATIVE_MAP_def LITTLE_ENDIAN_MAP_def
  BIG_ENDIAN_MAP_def is_digit_def align_to_def parse_decimal_def or1_def accumulate_def
  parseInt10_def Let_def

text \<open>
  Claim C8. With every prefix, and with none, five \<^verbatim>\<open>i\<close> fields take five times the
  size of one. In native mode (no prefix, or \<^verbatim>\<open>@\<close>) the format \<^verbatim>\<open>bi\<close> takes the byte
  of \<^verbatim>\<open>b\<close>, three bytes of padding up to the 4-byte boundary and the four bytes of
  \<^verbatim>\<open>i\<close>, 8 bytes in all; with the prefixes \<^verbatim>\<open>=\<close>, \<^verbatim>\<open><\<close>, \<^verbatim>\<open>>\<close> and \<^verbatim>\<open>!\<close> it takes the
  unpadded sum, 5 bytes. This holds on every host.
\<close>

theorem sizeOf_additivity:
  "sizeOf env ''5i'' = 5 * sizeOf env ''i''
   \<and> sizeOf env ''@5i'' = 5 * sizeOf env ''@i''
   \<and> sizeOf env ''=5i'' = 5 * sizeOf env ''=i''
   \<and> sizeOf env ''<5i'' = 5 * sizeOf env ''<i''
   \<and> sizeOf env ''>5i'' = 5 * sizeOf env ''>i''
   \<and> sizeOf env ''!5i'' = 5 * sizeOf env ''!i''
   \<and> sizeOf env ''bi'' = sizeOf env ''b'' + 3 + sizeOf env ''i''
   \<and> sizeOf env ''@bi'' = sizeOf env ''b'' + 3 + sizeOf env ''@i''
   \<and> sizeOf env ''bi'' = 8 \<and> sizeOf env ''@bi'' = 8
   \<and> sizeOf env ''=bi'' = sizeOf env ''=b'' + sizeOf env ''=i'' \<and> sizeOf env ''=bi'' = 5
   \<and> sizeOf env ''<bi'' = sizeOf env ''<b'' + sizeOf env ''<i'' \<and> sizeOf env ''<bi'' = 5
   \<and> sizeOf env ''>bi'' = sizeOf env ''>b'' + sizeOf env ''>i'' \<and> sizeOf env ''>bi'' = 5
   \<and> sizeOf env ''!bi'' = sizeOf env ''!b'' + sizeOf env ''!i'' \<and> sizeOf env ''!bi'' = 5"
  by (intro conjI; simp add: walk_defs)

subsection \<open>Characters that are not type codes\<close>

lemma unrecognized_NATIVE: "u \<notin> set type_codes \<Longrightarrow> NATIVE_MAP env u = None"
  by (simp add: NATIVE_MAP_def Let_def type_codes_def)
lemma unrecognized_LITTLE: "u \<notin> set type_codes \<Longrightarrow> LITTLE_ENDIAN_MAP env u = None"
  by (simp add: LITTLE_ENDIAN_MAP_def Let_def type_codes_def)
lemma unrecognized_BIG: "u \<notin> set type_codes \<Longrightarrow> BIG_ENDIAN_MAP env u = None"
  by (simp add: BIG_ENDIAN_MAP_def Let_def type_codes_def)

lemma unrecognized_selectMap: "u \<notin> set type_codes \<Longrightarrow> fst (selectMap env format) u = None"
  using selectMap_cases[of env format] unrecognized_NATIVE unrecognized_LITTLE unrecognized_BIG
  by metis

lemma sizeOf_loop_skip:
  "\<not> is_digit u \<Longrightarrow> m u = None \<Longrightarrow>
   sizeOf_loop m (a @ u # b) sz dec = sizeOf_loop m (a @ b) sz dec"
  by (induction a arbitrary: sz dec) (auto simp: Let_def split: option.splits)

lemma unpack_loop_skip:
  "\<not> is_digit u \<Longrightarrow> m u = None \<Longrightarrow>
   unpack_loop m (a @ u # b) data cb (vs, p) dec = unpack_loop m (a @ b) data cb (vs, p) dec"
  by (induction a arbitrary: vs p dec) (auto simp: Let_def split: option.splits sum.splits prod.splits)

lemma pack_loop_skip:
  "\<not> is_digit u \<Longrightarrow> m u = None \<Longrightarrow>
   pack_loop m (a @ u # b) data cb (bf, p, d) dec = pack_loop m (a @ b) data cb (bf, p, d) dec"
  by (induction a arbitrary: bf p d dec) (auto simp: Let_def split: option.splits sum.splits prod.splits)

lemma selectMap_append: "a \<noteq> [] \<Longrightarrow> selectMap env (a @ b) = selectMap env (a @ c)"
  by (cases a) (auto simp: selectMap_def)

lemma sizeOf_skip:
  assumes "a \<noteq> []" "\<not> is_digit u" "u \<notin> set type_codes"
  shows "sizeOf env (a @ u # b) = sizeOf env (a @ b)"
proof -
  obtain m sk where ms: "selectMap env (a @ u # b) = (m, sk)" by (cases "selectMap env (a @ u # b)") auto
  have ms': "selectMap env (a @ b) = (m, sk)" using selectMap_append[OF assms(1), of env b "u # b"] ms by simp
  have mu: "m u = None" using unrecognized_selectMap[OF assms(3), of env "a @ u # b"] ms by simp
  have d: "drop 1 (a @ u # b) = drop 1 a @ u # b" "drop 1 (a @ b) = drop 1 a @ b" using assms(1) by (cases a; simp)+
  show ?thesis using sizeOf_loop_skip[of u m, OF assms(2) mu] ms ms' d
    by (simp add: sizeOf_def)
qed


lemma unpackFrom_skip:
  assumes "a \<noteq> []" "\<not> is_digit u" "u \<notin> set type_codes"
  shows "unpackFrom env (a @ u # b) data cb pos = unpackFrom env (a @ b) data cb pos"
proof -
  obtain m sk where ms: "selectMap env (a @ u # b) = (m, sk)" by (cases "selectMap env (a @ u # b)") auto
  have ms': "selectMap env (a @ b) = (m, sk)" using selectMap_append[OF assms(1), of env b "u # b"] ms by simp
  have mu: "m u = None" using unrecognized_selectMap[OF assms(3), of env "a @ u # b"] ms by simp
  have d: "drop 1 (a @ u # b) = drop 1 a @ u # b" "drop 1 (a @ b) = drop 1 a @ b" using assms(1) by (cases a; simp)+
  show ?thesis using unpack_loop_skip[of u m, OF assms(2) mu] ms ms' d
    by (simp add: unpackFrom_def)
qed

lemma pack_skip:
  assumes "a \<noteq> []" "\<not> is_digit u" "u \<notin> set type_codes"
  shows "pack_literal env (a @ u # b) data cb = pack_literal env (a @ b) data cb"
proof -
  obtain m sk where ms: "selectMap env (a @ u # b) = (m, sk)" by (cases "selectMap env (a @ u # b)") auto
  have ms': "selectMap env (a @ b) = (m, sk)" using selectMap_append[OF assms(1), of env b "u # b"] ms by simp
  have mu: "m u = None" using unrecognized_selectMap[OF assms(3), of env "a @ u # b"] ms by simp
  have d: "drop 1 (a @ u # b) = drop 1 a @ u # b" "drop 1 (a @ b) = drop 1 a @ b" using assms(1) by (cases a; simp)+
  show ?thesis using pack_loop_skip[of u m, OF assms(2) mu] ms ms' d sizeOf_skip[OF assms]
    by (simp add: pack_literal_def)
qed

text \<open>
  Claim C6, as amended. A character that is neither a digit nor one of the eighteen type
  codes, anywhere after the first character of the format, is skipped and leaves the
  pending repeat count as it is: \<^verbatim>\<open>sizeOf\<close>, \<^verbatim>\<open>unpackFrom\<close>, \<^verbatim>\<open>unpack\<close> and
  \<^verbatim>\<open>pack\<close> give the same result as on the format without that character. So digits
  before it are the repeat count of the next type code. For \<^verbatim>\<open>pack\<close> of \<^verbatim>\<open>index.js\<close>
  the two results are the same \<^verbatim>\<open>TypeError\<close>; for \<^verbatim>\<open>pack\<close> of the object-literal
  copy they are the same buffer or the same error of the walk.
\<close>

theorem unrecognized_character_keeps_count:
  assumes "a \<noteq> []" and "\<not> is_digit u" and "u \<notin> set type_codes"
  shows "sizeOf env (a @ u # b) = sizeOf env (a @ b)
       \<and> unpackFrom env (a @ u # b) data cb pos = unpackFrom env (a @ b) data cb pos
       \<and> unpack env (a @ u # b) data cb = unpack env (a @ b) data cb
       \<and> pack env (a @ u # b) vals cb = pack env (a @ b) vals cb
       \<and> pack_literal env (a @ u # b) vals cb = pack_literal env (a @ b) vals cb"
  using sizeOf_skip[OF assms] unpackFrom_skip[OF assms] pack_skip[OF assms]
  by (simp add: unpack_def pack_TypeError)

theorem unrecognized_character_keeps_count_witness:
  "''<3'' \<noteq> [] \<and> \<not> is_digit CHR '' '' \<and> CHR '' '' \<notin> set type_codes
   \<and> sizeOf node_x64 ''<3 i'' = sizeOf node_x64 ''<3i''
   \<and> sizeOf node_x64 ''<3i'' = 12
   \<and> unpack node_x64 ''<3 B'' [7, 8, 9] False = unpack node_x64 ''<3B'' [7, 8, 9] False
   \<and> unpack node_x64 ''<3B'' [7, 8, 9] False = Inr [Number 7, Number 8, Number 9]
   \<and> pack node_x64 ''<3 B'' [Number 7, Number 8, Number 9] False = pack node_x64 ''<3B'' [Number 7, Number 8, Number 9] False
   \<and> pack_literal node_x64 ''<3 B'' [Number 7, Number 8, Number 9] False = pack_literal node_x64 ''<3B'' [Number 7, Number 8, Number 9] False
   \<and> pack_literal node_x64 ''<3B'' [Number 7, Number 8, Number 9] False = Inr [7, 8, 9]"
proof -
  have h: "''<3'' \<noteq> []" "\<not> is_digit CHR '' ''" "CHR '' '' \<notin> set type_codes"
    by (simp_all add: is_digit_def type_codes_def)
  have e: "sizeOf node_x64 ''<3i'' = 12"
      "unpack node_x64 ''<3B'' [7, 8, 9] False = Inr [Number 7, Number 8, Number 9]"
      "pack_literal node_x64 ''<3B'' [Number 7, Number 8, Number 9] False = Inr [7, 8, 9]"
    by code_simp+
  show ?thesis
    using h e unrecognized_character_keeps_count [OF h, of node_x64 "''i''"]
      unrecognized_character_keeps_count [OF h, of node_x64 "''B''" "[7, 8, 9]" False 0 "[Number 7, Number 8, Number 9]"]
    by simp
qed

text \<open>
  Claim C6 as it stands fails: the \<open>3\<close> before the blank is the count of the
  \<^verbatim>\<open>i\<close> that follows (12 bytes, against 4 without the digit), and the \<open>2\<close> before
  the blank makes \<^verbatim>\<open>B\<close> read two bytes and, where \<^verbatim>\<open>pack\<close> gets as far as its
  walk (the object-literal copy), write two bytes.
\<close>

theorem digits_before_unrecognized_counterexample:
  "sizeOf node_x64 ''<3 i'' = 12 \<and> sizeOf node_x64 ''< i'' = 4
   \<and> unpack node_x64 ''<2 B'' [7, 8] False = Inr [Number 7, Number 8]
   \<and> unpack node_x64 ''< B'' [7, 8] False = Inr [Number 7]
   \<and> pack_literal node_x64 ''<2 B'' [Number 7, Number 8] False = Inr [7, 8]
   \<and> pack_literal node_x64 ''< B'' [Number 7, Number 8] False = Inr [7]"
  by (intro conjI; code_simp)

subsection \<open>A repeat count of zero\<close>




lemmas alias_defs = UNPACK_UINT64_LE_def UNPACK_UINT64_BE_def
  UNPACK_INT64_LE_def UNPACK_INT64_BE_def PACK_UINT64_LE_def
  PACK_UINT64_BE_def UNPACK_UINT32_LE_def UNPACK_UINT32_BE_def UNPACK_INT32_LE_def
  UNPACK_INT32_BE_def PACK_UINT32_LE_def PACK_UINT32_BE_def PACK_INT32_LE_def PACK_INT32_BE_def
















subsection \<open>The truncated-buffer error\<close>

lemma read_uint_ok: "pos + k \<le> length data \<Longrightarrow> \<exists>v. read_uint le k data pos = Inr v"
  by (simp add: read_uint_def span_def)
lemma read_int_ok: "pos + k \<le> length data \<Longrightarrow> \<exists>v. read_int le k data pos = Inr v"
  by (simp add: read_int_def span_def)

lemma readers_ok:
  "pos + k \<le> length data \<Longrightarrow> \<exists>v. readInt le k data pos n = Inr v"
  "pos + k \<le> length data \<Longrightarrow> \<exists>v. readUInt le k data pos n = Inr v"
  "pos + 4 \<le> length data \<Longrightarrow> \<exists>v. readFloat le data pos n = Inr v"
  "pos + 8 \<le> length data \<Longrightarrow> \<exists>v. readDouble le data pos n = Inr v"
  "\<exists>v. unpack_c data pos n = Inr v"
  "\<exists>v. unpack_B data pos n = Inr v"
  "\<exists>v. unpack_bool data pos n = Inr v"
  "\<exists>v. UNPACK_STRING data pos n = Inr v"
  "\<exists>v. UNPACK_PASCAL_STRING data pos n = Inr v"
  using read_int_ok[of pos k data le] read_uint_ok[of pos k data le]
    read_uint_ok[of pos 4 data le] read_uint_ok[of pos 8 data le]
  by (auto simp: readInt_def readUInt_def readFloat_def readDouble_def unpack_c_def
      unpack_B_def unpack_bool_def UNPACK_STRING_def UNPACK_PASCAL_STRING_def Let_def
      split: option.splits)

lemma UNPACK_64_ok: "pos + 8 \<le> length data \<Longrightarrow> \<exists>v. UNPACK_64 le uns data pos n = Inr v"
proof -
  assume a: "pos + 8 \<le> length data"
  obtain x y where x: "read_int le 4 data pos = Inr x" and y: "read_int le 4 data (pos + 4) = Inr y"
    using read_int_ok[of pos 4 data le] read_int_ok[of "pos + 4" 4 data le] a by auto
  show ?thesis using x y by (cases le) (auto simp: UNPACK_64_def)
qed

lemma reads_in_range_NATIVE: "reads_in_range (NATIVE_MAP env)"
  unfolding reads_in_range_def NATIVE_MAP_def Let_def
  by (auto simp: alias_defs repeat_size_def readers_ok UNPACK_64_ok split: if_splits)

lemma reads_in_range_LITTLE: "reads_in_range (LITTLE_ENDIAN_MAP env)"
  unfolding reads_in_range_def LITTLE_ENDIAN_MAP_def Let_def
  by (auto simp: alias_defs repeat_size_def readers_ok UNPACK_64_ok split: if_splits)

lemma reads_in_range_BIG: "reads_in_range (BIG_ENDIAN_MAP env)"
  unfolding reads_in_range_def BIG_ENDIAN_MAP_def Let_def
  by (auto simp: alias_defs repeat_size_def readers_ok UNPACK_64_ok split: if_splits)

lemma reads_in_range_selectMap: "reads_in_range (fst (selectMap env format))"
  using selectMap_cases[of env format] reads_in_range_NATIVE reads_in_range_LITTLE
    reads_in_range_BIG
  by metis

lemma overruns_append [simp]: "overruns data (xs @ ys) = (overruns data xs \<or> overruns data ys)"
  by (simp add: overruns_def)

lemma overruns_Nil [simp]: "\<not> overruns data []"
  by (simp add: overruns_def)

lemma overruns_field:
  "overruns data (map (\<lambda>i. (p + i * sz, sz)) [0 ..< r]) = (\<exists>i<r. length data \<le> p + i * sz + sz)"
  by (auto simp: overruns_def list_ex_iff)

lemma overruns_field_Suc:
  "overruns data (map (\<lambda>i. (p + i * sz, sz)) [0 ..< Suc r])
     = (length data \<le> p + sz \<or> overruns data (map (\<lambda>i. (p + sz + i * sz, sz)) [0 ..< r]))"
proof -
  have "(\<exists>i<Suc r. length data \<le> p + i * sz + sz)
      = (length data \<le> p + sz \<or> (\<exists>i<r. length data \<le> p + sz + i * sz + sz))"
  proof
    assume "\<exists>i<Suc r. length data \<le> p + i * sz + sz"
    then obtain i where i: "i < Suc r" "length data \<le> p + i * sz + sz" by blast
    show "length data \<le> p + sz \<or> (\<exists>i<r. length data \<le> p + sz + i * sz + sz)"
    proof (cases i)
      case 0
      with i show ?thesis by simp
    next
      case (Suc j)
      with i have "j < r" "length data \<le> p + sz + j * sz + sz" by (simp_all add: algebra_simps)
      then show ?thesis by blast
    qed
  next
    assume "length data \<le> p + sz \<or> (\<exists>i<r. length data \<le> p + sz + i * sz + sz)"
    then show "\<exists>i<Suc r. length data \<le> p + i * sz + sz"
    proof
      assume "length data \<le> p + sz"
      then have "0 < Suc r \<and> length data \<le> p + 0 * sz + sz" by simp
      then show ?thesis by blast
    next
      assume "\<exists>i<r. length data \<le> p + sz + i * sz + sz"
      then obtain i where "i < r" "length data \<le> p + sz + i * sz + sz" by blast
      then have "Suc i < Suc r \<and> length data \<le> p + Suc i * sz + sz" by (simp add: algebra_simps)
      then show ?thesis by blast
    qed
  qed
  then show ?thesis unfolding overruns_field .
qed

lemma unpack_while_checked:
  assumes ok: "\<And>pos. pos + sz < length data \<Longrightarrow> \<exists>v. f data pos n = Inr v"
  shows "if overruns data (map (\<lambda>i. (p + i * sz, sz)) [0 ..< r])
         then unpack_while (Some f) True data sz n r (vs, p) = Inl TruncatedBuffer
         else \<exists>ws. unpack_while (Some f) True data sz n r (vs, p) = Inr (ws, p + r * sz)
                  \<and> unpack_while (Some f) False data sz n r (vs, p) = Inr (ws, p + r * sz)"
proof (induction r arbitrary: vs p)
  case 0
  show ?case by simp
next
  case (Suc r)
  show ?case
  proof (cases "length data \<le> p + sz")
    case True
    then show ?thesis unfolding overruns_field_Suc by simp
  next
    case False
    then obtain v where v: "f data p n = Inr v" using ok[of p] by auto
    have ih: "if overruns data (map (\<lambda>i. (p + sz + i * sz, sz)) [0 ..< r])
         then unpack_while (Some f) True data sz n r (vs @ [v], p + sz) = Inl TruncatedBuffer
         else \<exists>ws. unpack_while (Some f) True data sz n r (vs @ [v], p + sz) = Inr (ws, p + sz + r * sz)
                  \<and> unpack_while (Some f) False data sz n r (vs @ [v], p + sz) = Inr (ws, p + sz + r * sz)"
      using Suc.IH[of "p + sz" "vs @ [v]"] .
    show ?thesis unfolding overruns_field_Suc using False v ih
      by (auto simp: add.assoc split: if_splits)
  qed
qed

lemma unpack_while_pad: "unpack_while None cb data sz n r st = Inr st"
  by (induction r) (cases st; simp)+

lemma unpack_loop_field:
  "\<not> is_digit c \<Longrightarrow> m c = Some (op0, al, u, pk) \<Longrightarrow>
   repeat_size c op0 (parse_decimal dec) = (r, sz) \<Longrightarrow>
   unpack_loop m (c # cs) data cb (vs, p) dec =
     (case unpack_while u cb data sz (parse_decimal dec) r (vs, align_to p al) of
        Inl e \<Rightarrow> Inl e | Inr st \<Rightarrow> unpack_loop m cs data cb st None)"
  by simp

lemma decoding_spans_loop_field:
  "\<not> is_digit c \<Longrightarrow> m c = Some (op0, al, u, pk) \<Longrightarrow>
   repeat_size c op0 (parse_decimal dec) = (r, sz) \<Longrightarrow>
   decoding_spans_loop m (c # cs) p dec =
     (case u of None \<Rightarrow> decoding_spans_loop m cs (align_to p al) None
      | Some f \<Rightarrow> map (\<lambda>i. (align_to p al + i * sz, sz)) [0 ..< r]
                  @ decoding_spans_loop m cs (align_to p al + r * sz) None)"
  by (simp add: Let_def)

lemma unpack_loop_checked:
  assumes rr: "reads_in_range m"
  shows "if overruns data (decoding_spans_loop m cs p dec)
         then unpack_loop m cs data True (vs, p) dec = Inl TruncatedBuffer
         else \<exists>ws. unpack_loop m cs data True (vs, p) dec = Inr ws
                  \<and> unpack_loop m cs data False (vs, p) dec = Inr ws"
proof (induction cs arbitrary: vs p dec)
  case Nil
  show ?case by simp
next
  case (Cons c cs)
  show ?case
  proof (cases "is_digit c")
    case True
    then show ?thesis using Cons[of p "accumulate dec c" vs] by simp
  next
    case nd: False
    show ?thesis
    proof (cases "m c")
      case None
      then show ?thesis using nd Cons[of p dec vs] by simp
    next
      case (Some e)
      obtain op0 al u pk where e: "m c = Some (op0, al, u, pk)" using Some by (cases e) auto
      obtain r sz where rs: "repeat_size c op0 (parse_decimal dec) = (r, sz)"
        by (cases "repeat_size c op0 (parse_decimal dec)") auto
      note L = unpack_loop_field[of c m, OF nd e rs]
      note S = decoding_spans_loop_field[of c m, OF nd e rs]
      show ?thesis
      proof (cases u)
        case None
        show ?thesis unfolding L S None using Cons[of "align_to p al" None vs]
          by (simp add: unpack_while_pad)
      next
        case (Some f)
        have ok: "\<And>pos. pos + sz < length data \<Longrightarrow> \<exists>v. f data pos (parse_decimal dec) = Inr v"
          using rr e Some rs unfolding reads_in_range_def
          by (metis snd_conv)
        let ?q = "align_to p al"
        note W = unpack_while_checked[of sz data f "parse_decimal dec" ?q r vs, OF ok]
        show ?thesis
        proof (cases "overruns data (map (\<lambda>i. (?q + i * sz, sz)) [0 ..< r])")
          case True
          then show ?thesis unfolding L S Some using W by simp
        next
          case False
          then obtain ws where
            t: "unpack_while (Some f) True data sz (parse_decimal dec) r (vs, ?q) = Inr (ws, ?q + r * sz)"
            and u: "unpack_while (Some f) False data sz (parse_decimal dec) r (vs, ?q) = Inr (ws, ?q + r * sz)"
            using W by auto
          show ?thesis unfolding L S Some using False t u Cons[of "?q + r * sz" None ws]
            by simp
        qed
      qed
    qed
  qed
qed

text \<open>
  Claim C5. With bounds checking, \<^verbatim>\<open>unpackFrom\<close> (and \<^verbatim>\<open>unpack\<close>, from position 0)
  raises the truncated-buffer error exactly when some decoding occurrence of the format
  has \<^verbatim>\<open>position + size >= data.length\<close> at its cursor; otherwise it returns the values
  that the run without bounds checking returns, and no other error can occur. The check
  comes before the read: at such an occurrence the loop raises whatever the unpack
  function \<open>f\<close> is. On a 3-byte buffer \<^verbatim>\<open>unpack('i', data, true)\<close> raises it.
\<close>

theorem truncated_buffer_exactly:
  "(unpackFrom env format data True position = Inl TruncatedBuffer)
     = overruns data (decoding_spans env format position)
   \<and> (\<not> overruns data (decoding_spans env format position) \<longrightarrow>
        (\<exists>vs. unpackFrom env format data True position = Inr vs
            \<and> unpackFrom env format data False position = Inr vs))
   \<and> (unpack env format data True = Inl TruncatedBuffer)
        = overruns data (decoding_spans env format 0)
   \<and> (length data \<le> p + sz \<longrightarrow>
        unpack_while (Some f) True data sz n (Suc r) (vs, p) = Inl TruncatedBuffer)
   \<and> unpack env ''i'' [a, b, c] True = Inl TruncatedBuffer"
proof -
  have main: "if overruns data (decoding_spans env format q)
         then unpackFrom env format data True q = Inl TruncatedBuffer
         else \<exists>ws. unpackFrom env format data True q = Inr ws
                  \<and> unpackFrom env format data False q = Inr ws" for q
  proof -
    obtain m sk where ms: "selectMap env format = (m, sk)"
      by (cases "selectMap env format") auto
    have rr: "reads_in_range m" using reads_in_range_selectMap[of env format] ms by simp
    show ?thesis
      using unpack_loop_checked[OF rr, of data "if sk then drop 1 format else format" q None "[]"] ms
      by (simp add: unpackFrom_def decoding_spans_def)
  qed
  have iff: "(unpackFrom env format data True q = Inl TruncatedBuffer)
     = overruns data (decoding_spans env format q)" for q
    using main[of q] by (auto split: if_splits)
  have ex: "unpack env ''i'' [a, b, c] True = Inl TruncatedBuffer"
    by (simp add: unpack_def unpackFrom_def selectMap_def NATIVE_MAP_def Let_def is_digit_def
        align_to_def parse_decimal_def repeat_size_def or1_def)
  show ?thesis using main[of position] iff[of position] iff[of 0] ex
    by (auto simp: unpack_def split: if_splits)
qed

theorem truncated_buffer_exactly_witness:
  "\<not> overruns [1, 0, 2, 9] (decoding_spans node_x64 ''<hB'' 0)
   \<and> unpackFrom node_x64 ''<hB'' [1, 0, 2, 9] True 0 = Inr [Number 1, Number 2]
   \<and> unpackFrom node_x64 ''<hB'' [1, 0, 2, 9] False 0 = Inr [Number 1, Number 2]
   \<and> overruns [1, 0, 2] (decoding_spans node_x64 ''<hB'' 0)
   \<and> unpackFrom node_x64 ''<hB'' [1, 0, 2] True 0 = Inl TruncatedBuffer
   \<and> length [1, 0, 2 :: byte] \<le> 2 + 1
   \<and> unpack_while (Some unpack_B) True [1, 0, 2] 1 0 (Suc 0) ([Number 1], 2)
        = Inl TruncatedBuffer"
proof -
  have s: "decoding_spans node_x64 ''<hB'' 0 = [(0, 2), (2, 1)]"
    by code_simp
  have o: "\<not> overruns [1, 0, 2, 9 :: byte] [(0, 2), (2, 1)]"
    "overruns [1, 0, 2 :: byte] [(0, 2), (2, 1)]"
    by (simp_all add: overruns_def)
  have e: "unpackFrom node_x64 ''<hB'' [1, 0, 2, 9] False 0 = Inr [Number 1, Number 2]"
    by code_simp
  have l: "length [1, 0, 2 :: byte] \<le> 2 + 1" by simp
  show ?thesis
    using s o e l
      truncated_buffer_exactly [of node_x64 "''<hB''" "[1, 0, 2, 9]" 0 2 1 unpack_B 0 0 "[Number 1]"]
      truncated_buffer_exactly [of node_x64 "''<hB''" "[1, 0, 2]" 0 2 1 unpack_B 0 0 "[Number 1]"]
    by auto
qed

subsection \<open>The insufficient-values error\<close>

lemma write_int_error: "write_int le k lo hi v b p \<noteq> Inl InsufficientValues"
  by (cases v) (auto simp: write_int_def)

lemma fill0_error: "fill0 b x y \<noteq> Inl InsufficientValues"
  by (auto simp: fill0_def)

lemma packers_error:
  "writeInt le k v b p n \<noteq> Inl InsufficientValues"
  "writeUInt le k v b p n \<noteq> Inl InsufficientValues"
  "writeFloat le v b p n \<noteq> Inl InsufficientValues"
  "writeDouble le v b p n \<noteq> Inl InsufficientValues"
  "pack_c v b p n \<noteq> Inl InsufficientValues"
  "pack_B v b p n \<noteq> Inl InsufficientValues"
  "pack_bool v b p n \<noteq> Inl InsufficientValues"
  "PACK_STRING v b p n \<noteq> Inl InsufficientValues"
  "PACK_PASCAL_STRING v b p n \<noteq> Inl InsufficientValues"
  by (cases v; auto simp: writeInt_def writeUInt_def write_int_error writeFloat_def writeDouble_def
      pack_c_def pack_B_def pack_bool_def PACK_STRING_def PACK_PASCAL_STRING_def buf_write_def
      buf_copy_def fill0_error Let_def split: option.splits sum.splits if_splits)+

lemma PACK_INT64_error:
  "PACK_INT64_LE v b p n \<noteq> Inl InsufficientValues"
  "PACK_INT64_BE v b p n \<noteq> Inl InsufficientValues"
  using packers_error(1)
  by (cases v; auto simp: PACK_INT64_LE_def PACK_INT64_BE_def split: sum.splits prod.splits)+

lemma never_insufficient_NATIVE: "never_insufficient (NATIVE_MAP env)"
  unfolding never_insufficient_def NATIVE_MAP_def Let_def
  by (auto simp: alias_defs packers_error PACK_INT64_error split: if_splits)

lemma never_insufficient_LITTLE: "never_insufficient (LITTLE_ENDIAN_MAP env)"
  unfolding never_insufficient_def LITTLE_ENDIAN_MAP_def Let_def
  by (auto simp: alias_defs packers_error PACK_INT64_error split: if_splits)

lemma never_insufficient_BIG: "never_insufficient (BIG_ENDIAN_MAP env)"
  unfolding never_insufficient_def BIG_ENDIAN_MAP_def Let_def
  by (auto simp: alias_defs packers_error PACK_INT64_error split: if_splits)

lemma never_insufficient_selectMap: "never_insufficient (fst (selectMap env format))"
  using selectMap_cases[of env format] never_insufficient_NATIVE never_insufficient_LITTLE
    never_insufficient_BIG
  by metis

lemma pack_while_pad: "pack_while None cb data sz n r (bf, p, d) = Inr (bf, p + r * sz, d)"
  by (induction r arbitrary: p) (simp_all add: algebra_simps)

lemma pack_while_prefix:
  assumes "pack_while (Some g) True (data @ extra) sz n r (bf, p, d) = Inr st"
    and "d \<le> length data"
  shows "pack_while (Some g) True data sz n r (bf, p, d)
           = (if length data < d + r then Inl InsufficientValues else Inr st)"
  using assms
proof (induction r arbitrary: bf p d)
  case 0
  then show ?case by auto
next
  case (Suc r)
  show ?case
  proof (cases "d < length data")
    case True
    then have el: "element (data @ extra) d = element data d"
      by (simp add: element_def nth_append)
    from Suc.prems(1) True obtain b1 where
      g: "g (element data d) bf p n = Inr b1"
      and rest: "pack_while (Some g) True (data @ extra) sz n r (b1, p + sz, d + 1) = Inr st"
      by (auto simp: el split: sum.splits if_splits)
    have "pack_while (Some g) True data sz n r (b1, p + sz, d + 1)
           = (if length data < d + 1 + r then Inl InsufficientValues else Inr st)"
      using Suc.IH[OF rest] True by simp
    then show ?thesis using True g by simp
  next
    case False
    then show ?thesis by simp
  qed
qed

lemma pack_while_checked_result:
  assumes "pack_while (Some g) True data sz n r (bf, p, d) = Inr (b', p', d')"
    and "d \<le> length data"
  shows "d' = d + r \<and> d' \<le> length data"
  using assms
proof (induction r arbitrary: bf p d)
  case 0
  then show ?case by simp
next
  case (Suc r)
  from Suc.prems obtain b1 where dl: "d < length data"
    and rest: "pack_while (Some g) True data sz n r (b1, p + sz, d + 1) = Inr (b', p', d')"
    by (auto split: sum.splits if_splits)
  from Suc.IH[OF rest] dl show ?case by simp
qed

lemma pack_while_insufficient:
  assumes "pack_while (Some g) cb data sz n r (bf, p, d) = Inl InsufficientValues"
    and "\<And>v b p n. g v b p n \<noteq> Inl InsufficientValues"
  shows "cb \<and> length data < d + r"
  using assms(1)
proof (induction r arbitrary: bf p d)
  case 0
  then show ?case by simp
next
  case (Suc r)
  show ?case
  proof (cases "cb \<and> length data \<le> d")
    case True
    then show ?thesis by simp
  next
    case False
    with Suc.prems assms(2)[of "element data d" bf p n] obtain b1 where
      "pack_while (Some g) cb data sz n r (b1, p + sz, d + 1) = Inl InsufficientValues"
      by (auto split: sum.splits if_splits)
    from Suc.IH[OF this] show ?thesis by simp
  qed
qed

lemma pack_loop_field:
  "\<not> is_digit c \<Longrightarrow> m c = Some (op0, al, u, pk) \<Longrightarrow>
   repeat_size c op0 (parse_decimal dec) = (r, sz) \<Longrightarrow>
   pack_loop m (c # cs) data cb (bf, p, d) dec =
     (case pack_while pk cb data sz (parse_decimal dec) r (bf, align_to p al, d) of
        Inl e \<Rightarrow> Inl e | Inr st \<Rightarrow> pack_loop m cs data cb st None)"
  by simp

lemma values_needed_loop_field:
  "\<not> is_digit c \<Longrightarrow> m c = Some (op0, al, u, pk) \<Longrightarrow>
   repeat_size c op0 (parse_decimal dec) = (r, sz) \<Longrightarrow>
   values_needed_loop m (c # cs) dec =
     (case pk of None \<Rightarrow> 0 | Some g \<Rightarrow> r) + values_needed_loop m cs None"
  by (simp add: Let_def)

lemma pack_loop_prefix:
  assumes "pack_loop m cs (data @ extra) True (bf, p, d) dec = Inr packed"
    and "d \<le> length data"
  shows "pack_loop m cs data True (bf, p, d) dec
           = (if length data < d + values_needed_loop m cs dec then Inl InsufficientValues
              else Inr packed)"
  using assms
proof (induction cs arbitrary: bf p d dec)
  case Nil
  then show ?case by simp
next
  case (Cons c cs)
  show ?case
  proof (cases "is_digit c")
    case True
    then show ?thesis using Cons.IH[of bf p d "accumulate dec c"] Cons.prems by simp
  next
    case nd: False
    show ?thesis
    proof (cases "m c")
      case None
      then show ?thesis using nd Cons.IH[of bf p d dec] Cons.prems by simp
    next
      case (Some e)
      obtain op0 al u pk where e: "m c = Some (op0, al, u, pk)" using Some by (cases e) auto
      obtain r sz where rs: "repeat_size c op0 (parse_decimal dec) = (r, sz)"
        by (cases "repeat_size c op0 (parse_decimal dec)") auto
      note L = pack_loop_field[of c m, OF nd e rs]
      note V = values_needed_loop_field[of c m, OF nd e rs]
      let ?q = "align_to p al" and ?n = "parse_decimal dec"
      from Cons.prems(1) obtain b1 p1 d1 where
        w: "pack_while pk True (data @ extra) sz ?n r (bf, ?q, d) = Inr (b1, p1, d1)"
        and rest: "pack_loop m cs (data @ extra) True (b1, p1, d1) None = Inr packed"
        unfolding L by (auto split: sum.splits)
      show ?thesis
      proof (cases pk)
        case None
        have st: "(b1, p1, d1) = (bf, ?q + r * sz, d)" using w None by (simp add: pack_while_pad)
        show ?thesis unfolding L V None pack_while_pad
          using Cons.IH[of bf "?q + r * sz" d None] rest st Cons.prems(2) by simp
      next
        case (Some g)
        have wd: "pack_while (Some g) True data sz ?n r (bf, ?q, d)
           = (if length data < d + r then Inl InsufficientValues else Inr (b1, p1, d1))"
          using pack_while_prefix[OF w[unfolded Some] Cons.prems(2)] .
        show ?thesis
        proof (cases "length data < d + r")
          case True
          then show ?thesis unfolding L V Some wd by simp
        next
          case False
          then have ok: "pack_while (Some g) True data sz ?n r (bf, ?q, d) = Inr (b1, p1, d1)"
            using wd by simp
          from pack_while_checked_result[OF ok Cons.prems(2)] have d1: "d1 = d + r" "d1 \<le> length data"
            by simp_all
          show ?thesis unfolding L V Some ok
            using Cons.IH[OF rest d1(2)] d1 False by (simp add: add.assoc)
        qed
      qed
    qed
  qed
qed

lemma pack_loop_unchecked:
  assumes "never_insufficient m"
  shows "pack_loop m cs data False (bf, p, d) dec \<noteq> Inl InsufficientValues"
proof (induction cs arbitrary: bf p d dec)
  case Nil
  show ?case by simp
next
  case (Cons c cs)
  show ?case
  proof (cases "is_digit c")
    case True
    then show ?thesis using Cons[of bf p d "accumulate dec c"] by simp
  next
    case nd: False
    show ?thesis
    proof (cases "m c")
      case None
      then show ?thesis using nd Cons[of bf p d dec] by simp
    next
      case (Some e)
      obtain op0 al u pk where e: "m c = Some (op0, al, u, pk)" using Some by (cases e) auto
      obtain r sz where rs: "repeat_size c op0 (parse_decimal dec) = (r, sz)"
        by (cases "repeat_size c op0 (parse_decimal dec)") auto
      note L = pack_loop_field[of c m, OF nd e rs]
      let ?q = "align_to p al" and ?n = "parse_decimal dec"
      have w: "pack_while pk False data sz ?n r (bf, ?q, d) \<noteq> Inl InsufficientValues"
      proof (cases pk)
        case None
        then show ?thesis by (simp add: pack_while_pad)
      next
        case (Some g)
        have ni: "\<And>v b p n. g v b p n \<noteq> Inl InsufficientValues"
          using assms e Some unfolding never_insufficient_def by blast
        show ?thesis unfolding Some
          using pack_while_insufficient[of g False data sz ?n r bf ?q d, OF _ ni] by blast
      qed
      show ?thesis
      proof (cases "pack_while pk False data sz ?n r (bf, ?q, d)")
        case (Inl err)
        then show ?thesis unfolding L using w by simp
      next
        case (Inr st)
        obtain b1 p1 d1 where st: "st = (b1, p1, d1)" by (cases st) auto
        show ?thesis unfolding L Inr st using Cons[of b1 p1 d1 None] by simp
      qed
    qed
  qed
qed

lemma pack_loop_insufficient:
  assumes "pack_loop m cs data True (bf, p, d) dec = Inl InsufficientValues"
    and "d \<le> length data" and "never_insufficient m"
  shows "length data < d + values_needed_loop m cs dec"
  using assms(1,2)
proof (induction cs arbitrary: bf p d dec)
  case Nil
  then show ?case by simp
next
  case (Cons c cs)
  show ?case
  proof (cases "is_digit c")
    case True
    then show ?thesis using Cons.IH[of bf p d "accumulate dec c"] Cons.prems by simp
  next
    case nd: False
    show ?thesis
    proof (cases "m c")
      case None
      then show ?thesis using nd Cons.IH[of bf p d dec] Cons.prems by simp
    next
      case (Some e)
      obtain op0 al u pk where e: "m c = Some (op0, al, u, pk)" using Some by (cases e) auto
      obtain r sz where rs: "repeat_size c op0 (parse_decimal dec) = (r, sz)"
        by (cases "repeat_size c op0 (parse_decimal dec)") auto
      note L = pack_loop_field[of c m, OF nd e rs]
      note V = values_needed_loop_field[of c m, OF nd e rs]
      let ?q = "align_to p al" and ?n = "parse_decimal dec"
      show ?thesis
      proof (cases pk)
        case None
        show ?thesis unfolding V None
          using Cons.prems Cons.IH[of bf "?q + r * sz" d None]
          unfolding L None pack_while_pad by simp
      next
        case (Some g)
        have ni: "\<And>v b p n. g v b p n \<noteq> Inl InsufficientValues"
          using assms(3) e Some unfolding never_insufficient_def by blast
        show ?thesis
        proof (cases "pack_while (Some g) True data sz ?n r (bf, ?q, d)")
          case (Inl err)
          with Cons.prems(1) have "err = InsufficientValues" unfolding L Some by simp
          with Inl pack_while_insufficient[of g True data sz ?n r bf ?q d, OF _ ni]
          have "length data < d + r" by simp
          then show ?thesis unfolding V Some by simp
        next
          case (Inr st)
          obtain b1 p1 d1 where st: "st = (b1, p1, d1)" by (cases st) auto
          from Cons.prems(1) Inr st have rest:
            "pack_loop m cs data True (b1, p1, d1) None = Inl InsufficientValues"
            unfolding L Some by simp
          from pack_while_checked_result[OF Inr[unfolded st] Cons.prems(2)]
          have d1: "d1 = d + r" "d1 \<le> length data" by simp_all
          from Cons.IH[OF rest d1(2)] d1 show ?thesis unfolding V Some by (simp add: add.assoc)
        qed
      qed
    qed
  qed
qed

text \<open>
  The walk of \<^verbatim>\<open>pack\<close>, as it runs in the object-literal copy, raises the
  insufficient-values error under bounds checking exactly when the value index has
  reached the length of the value sequence at an occurrence that consumes a value:
  \<^item> if the values at hand are accepted by their fields (packing succeeds once more
    values are appended), it raises the error when the sequence is shorter than
    the number of value-consuming occurrences of the format, and returns the buffer
    otherwise;
  \<^item> the error is raised only when the sequence is that short, success needs that many
    values, and without bounds checking the error is never raised;
  \<^item> the check comes before the write: at an occurrence with no value left the loop
    raises whatever the pack function \<open>g\<close> is;
  \<^item> a pad field has no pack function: it advances the position, leaves the value
    index alone and never raises.
\<close>

lemma pack_literal_insufficient_values:
  "(pack_literal env format (data @ extra) True = Inr packed \<longrightarrow>
      pack_literal env format data True
        = (if length data < values_needed env format then Inl InsufficientValues
           else Inr packed))
   \<and> (pack_literal env format data True = Inl InsufficientValues \<longrightarrow>
        length data < values_needed env format)
   \<and> (pack_literal env format data True = Inr packed \<longrightarrow> values_needed env format \<le> length data)
   \<and> pack_literal env format data False \<noteq> Inl InsufficientValues
   \<and> (length data \<le> d \<longrightarrow>
        pack_while (Some g) True data sz n (Suc r) (bf, p, d) = Inl InsufficientValues)
   \<and> pack_while None cb data sz n r (bf, p, d) = Inr (bf, p + r * sz, d)"
proof -
  obtain m sk where ms: "selectMap env format = (m, sk)"
    by (cases "selectMap env format") auto
  have ni: "never_insufficient m" using never_insufficient_selectMap[of env format] ms by simp
  let ?cs = "if sk then drop 1 format else format"
  let ?b = "new_Buffer (sizeOf env format)"
  have P: "pack_literal env format vals cb' = pack_loop m ?cs vals cb' (?b, 0, 0) None" for vals cb'
    using ms by (simp add: pack_literal_def)
  have N: "values_needed env format = values_needed_loop m ?cs None"
    using ms by (simp add: values_needed_def)
  have a: "pack_literal env format (data @ extra) True = Inr packed \<longrightarrow>
      pack_literal env format data True
        = (if length data < values_needed env format then Inl InsufficientValues
           else Inr packed)"
    unfolding P N using pack_loop_prefix[of m ?cs data extra ?b 0 0 None packed] by simp
  have b: "pack_literal env format data True = Inl InsufficientValues \<longrightarrow>
        length data < values_needed env format"
    unfolding P N using pack_loop_insufficient[of m ?cs data ?b 0 0 None, OF _ _ ni] by simp
  have c: "pack_literal env format data True = Inr packed \<longrightarrow> values_needed env format \<le> length data"
    unfolding P N using pack_loop_prefix[of m ?cs data "[]" ?b 0 0 None packed]
    by (auto split: if_splits)
  have d: "pack_literal env format data False \<noteq> Inl InsufficientValues"
    unfolding P using pack_loop_unchecked[OF ni] .
  have e: "length data \<le> d \<longrightarrow>
        pack_while (Some g) True data sz n (Suc r) (bf, p, d) = Inl InsufficientValues"
    by simp
  have f: "pack_while None cb data sz n r (bf, p, d) = Inr (bf, p + r * sz, d)"
    by (rule pack_while_pad)
  show ?thesis
    by (rule conjI[OF a conjI[OF b conjI[OF c conjI[OF d conjI[OF e f]]]]])
qed

text \<open>
  Claim C9. With bounds checking, \<^verbatim>\<open>pack\<close> is described as raising the
  insufficient-values error at a value-consuming field that has no value left.
  \<^verbatim>\<open>pack\<close> of \<^verbatim>\<open>index.js\<close> never raises that error: every call ends in the
  \<^verbatim>\<open>TypeError\<close> of the allocation, before the walk and its check begin, because
  \<^verbatim>\<open>sizeOf\<close> is not declared \<^verbatim>\<open>static\<close>. The format \<^verbatim>\<open><hxB\<close> has two
  value-consuming occurrences; given the one value 1 and bounds checking, \<^verbatim>\<open>pack\<close>
  raises \<^verbatim>\<open>TypeError\<close>, where the same walk reached in the object-literal copy raises
  the insufficient-values error.
\<close>

theorem pack_never_reports_insufficient_values:
  "pack env format data checkBounds \<noteq> Inl InsufficientValues
   \<and> pack node_x64 ''<hxB'' [Number 1] True = Inl TypeError
   \<and> values_needed node_x64 ''<hxB'' = 2
   \<and> pack_literal node_x64 ''<hxB'' [Number 1] True = Inl InsufficientValues"
proof -
  have n: "values_needed node_x64 ''<hxB'' = 2"
    by code_simp
  have i: "pack_literal node_x64 ''<hxB'' [Number 1] True = Inl InsufficientValues"
    by code_simp
  show ?thesis using n i by (simp add: pack_TypeError)
qed

subsection \<open>Pad bytes and pascal strings: where the code departs from its description\<close>

lemma replicate_numeral: "replicate (numeral k) x = x # replicate (pred_numeral k) x"
  by (simp add: numeral_eq_Suc)

lemma list_update_numeral: "(x # xs)[numeral k := y] = x # xs[pred_numeral k := y]"
  by (simp add: numeral_eq_Suc)

lemmas eval_defs = walk_defs unpack_def unpackFrom_def pack_literal_def repeat_size_def new_Buffer_def
  unpack_B_def pack_B_def index_def element_def UNPACK_PASCAL_STRING_def PACK_PASCAL_STRING_def
  buf_copy_def fill0_def slice_def replicate_numeral list_update_numeral

text \<open>
  Claim C2 does not hold of \<^verbatim>\<open>unpackFrom\<close>: a pad byte is counted by \<^verbatim>\<open>sizeOf\<close> and
  skipped by the walk of \<^verbatim>\<open>pack\<close>, which writes the \<^verbatim>\<open>B\<close> of \<^verbatim>\<open><xB\<close> at offset 1
  of a buffer of two bytes, but \<^verbatim>\<open>unpackFrom\<close> advances the position only inside
  \<^verbatim>\<open>if (unpack)\<close> and reads the \<^verbatim>\<open>B\<close> at offset 0: from the bytes 1, 2 it returns 1,
  not 2. This is so on every host. The walk of \<^verbatim>\<open>pack\<close> is stated twice: as
  \<^verbatim>\<open>pack\<close> of the object-literal copy, and as the loop of \<^verbatim>\<open>index.js\<close> run on a
  fresh buffer of two bytes, which \<^verbatim>\<open>pack\<close> of \<^verbatim>\<open>index.js\<close> itself never reaches.
\<close>

theorem unpack_does_not_skip_pad:
  "unpack env ''<xB'' [1, 2] False = Inr [Number 1]
   \<and> sizeOf env ''<xB'' = 2
   \<and> pack_literal env ''<xB'' [Number 2] False = Inr [0, 2]
   \<and> pack_loop (LITTLE_ENDIAN_MAP env) ''xB'' [Number 2] False (new_Buffer 2, 0, 0) None
       = Inr [0, 2]
   \<and> pack env ''<xB'' [Number 2] False = Inl TypeError"
  by (simp add: eval_defs pack_TypeError)

text \<open>
  Claim C3 does not hold of \<^verbatim>\<open>PACK_PASCAL_STRING\<close>: the count is stored by
  \<^verbatim>\<open>bytes[pos] = n\<close> into the encoded text, not into the output buffer. Packing
  \<^verbatim>\<open>'ab'\<close> into a field of 4 bytes leaves the first byte of the field as allocated (0)
  and copies the overwritten text: the result is 0, 2, \<^verbatim>\<open>'b'\<close>, 0 where the claim has
  2, \<^verbatim>\<open>'a'\<close>, \<^verbatim>\<open>'b'\<close>, 0. Packing 256 bytes of text into a field of 300 bytes gives
  a first byte of 0, not 255, followed by the count 255 and 254 bytes of the text. Both
  are stated of \<^verbatim>\<open>PACK_PASCAL_STRING\<close> applied to a fresh buffer, and of \<^verbatim>\<open>pack\<close> of
  the object-literal copy with the formats \<^verbatim>\<open><4p\<close> and \<^verbatim>\<open><300p\<close>. \<^verbatim>\<open>pack\<close> of
  \<^verbatim>\<open>index.js\<close> does not get as far as the field: it raises \<^verbatim>\<open>TypeError\<close> at its
  allocation.
\<close>

theorem pascal_pack_loses_count:
  "pack_literal node_x64 ''<4p'' [Text [0x61, 0x62]] False = Inr [0, 2, 0x62, 0]
   \<and> pack_literal node_x64 ''<300p'' [Text (replicate 256 0x61)] False
       = Inr ([0, 255] @ replicate 254 0x61 @ replicate 44 0)
   \<and> PACK_PASCAL_STRING (Text [0x61, 0x62]) (new_Buffer 4) 0 4 = Inr [0, 2, 0x62, 0]
   \<and> PACK_PASCAL_STRING (Text (replicate 256 0x61)) (new_Buffer 300) 0 300
       = Inr ([0, 255] @ replicate 254 0x61 @ replicate 44 0)
   \<and> pack node_x64 ''<4p'' [Text [0x61, 0x62]] False = Inl TypeError
   \<and> pack node_x64 ''<300p'' [Text (replicate 256 0x61)] False = Inl TypeError"
proof -
  have a: "pack_literal node_x64 ''<4p'' [Text [0x61, 0x62]] False = Inr [0, 2, 0x62, 0]"
    by code_simp
  have b: "pack_literal node_x64 ''<300p'' [Text (replicate 256 0x61)] False
       = Inr ([0, 255] @ replicate 254 0x61 @ replicate 44 0)"
    by code_simp
  have c: "PACK_PASCAL_STRING (Text [0x61, 0x62]) (new_Buffer 4) 0 4 = Inr [0, 2, 0x62, 0]"
    by code_simp
  have d: "PACK_PASCAL_STRING (Text (replicate 256 0x61)) (new_Buffer 300) 0 300
       = Inr ([0, 255] @ replicate 254 0x61 @ replicate 44 0)"
    by code_simp
  show ?thesis
    by (rule conjI[OF a conjI[OF b conjI[OF c conjI[OF d conjI[OF pack_TypeError pack_TypeError]]]]])
qed

text \<open>
  Claim C4 does not hold of \<^verbatim>\<open>UNPACK_PASCAL_STRING\<close>: the count is read from
  \<^verbatim>\<open>data[0]\<close>, the first byte of the buffer, not from the first byte of the field. For
  a field \<^verbatim>\<open>3p\<close> that starts at position 1 of the bytes 2, 1, \<^verbatim>\<open>'a'\<close>, \<^verbatim>\<open>'b'\<close> the
  count at the field's start is 1 (the claim gives \<^verbatim>\<open>'a'\<close>), but the code takes the count
  2 from the buffer's first byte and returns \<^verbatim>\<open>'ab'\<close>. This is so on every host.
\<close>

theorem pascal_unpack_reads_first_buffer_byte:
  "unpackFrom env ''<3p'' [2, 1, 0x61, 0x62] False 1 = Inr [Text [0x61, 0x62]]
   \<and> unpack env ''<B3p'' [2, 1, 0x61, 0x62] False = Inr [Number 2, Text [0x61, 0x62]]"
  by (simp add: eval_defs)

text \<open>
  Claim C1 does not hold. \<^verbatim>\<open>pack\<close> of \<^verbatim>\<open>index.js\<close> returns no buffer to unpack: it
  raises \<^verbatim>\<open>TypeError\<close> at its allocation, for the type code \<^verbatim>\<open>p\<close> as for \<^verbatim>\<open>B\<close>.
  The pascal codec fails by itself as well, as the object-literal copy shows, where the
  allocation succeeds. With a format made of a prefix and \<^verbatim>\<open>p\<close> the field is one byte
  wide and the only text in its range is the empty one; \<^verbatim>\<open>pack\<close> raises on it, because
  \<^verbatim>\<open>PACK_PASCAL_STRING\<close> is passed the parsed count 0 (not the size \<^verbatim>\<open>decimal || 1\<close>),
  clamps the text length to \<open>-1\<close> and calls \<^verbatim>\<open>copy\<close> with a negative end. With a
  count the round trip fails too: \<^verbatim>\<open>'ab'\<close> packed with \<^verbatim>\<open><4p\<close> is the bytes
  0, 2, \<^verbatim>\<open>'b'\<close>, 0, which \<^verbatim>\<open>unpack\<close> of \<^verbatim>\<open>index.js\<close> decodes as the empty text.
\<close>

theorem pascal_round_trip_fails:
  "pack_literal env ''<p'' [Text []] False = Inl RangeError
   \<and> pack_literal env ''>p'' [Text []] False = Inl RangeError
   \<and> pack_literal env ''!p'' [Text []] False = Inl RangeError
   \<and> pack_literal env ''=p'' [Text []] False = Inl RangeError
   \<and> pack_literal env ''<4p'' [Text [0x61, 0x62]] False = Inr [0, 2, 0x62, 0]
   \<and> unpack env ''<4p'' [0, 2, 0x62, 0] False = Inr [Text []]
   \<and> PACK_PASCAL_STRING (Text []) (new_Buffer 1) 0 0 = Inl RangeError
   \<and> PACK_PASCAL_STRING (Text [0x61, 0x62]) (new_Buffer 4) 0 4 = Inr [0, 2, 0x62, 0]
   \<and> pack env ''<p'' [Text []] False = Inl TypeError
   \<and> pack env ''<4p'' [Text [0x61, 0x62]] False = Inl TypeError
   \<and> pack env ''<B'' [Number 7] False = Inl TypeError"
  by (simp add: eval_defs pack_TypeError)

end
